theory Spec2Isabelle
  imports Main "HOL-Library.Word"
begin

unbundle bit_operations_syntax

section \<open>Shared types and constants\<close>

text \<open>
  \<open>syscall.Errno\<close> is an unsigned machine word whose zero value means success. The
  named codes below carry their Linux values; the development only relies on them being
  non-zero and pairwise distinct.
\<close>

type_synonym errno = nat

definition ENOENT :: errno where "ENOENT = 2"
definition EIO :: errno where "EIO = 5"
definition EBADF :: errno where "EBADF = 9"
definition ENOTDIR :: errno where "ENOTDIR = 20"
definition EISDIR :: errno where "EISDIR = 21"
definition EINVAL :: errno where "EINVAL = 22"
definition EROFS :: errno where "EROFS = 30"
definition ENOSYS :: errno where "ENOSYS = 38"

lemmas errno_defs = ENOENT_def EIO_def EBADF_def ENOTDIR_def EISDIR_def EINVAL_def EROFS_def ENOSYS_def

text \<open>The access-mode constants of package \<open>os\<close> / \<open>syscall\<close> (Go \<open>int\<close>).\<close>

definition O_RDONLY :: int where "O_RDONLY = 0"
definition O_WRONLY :: int where "O_WRONLY = 1"
definition O_RDWR :: int where "O_RDWR = 2"

lemmas oflag_defs = O_RDONLY_def O_WRONLY_def O_RDWR_def

text \<open>\<open>fs.FileMode\<close> is a \<open>uint32\<close>; the type bits are those of package \<open>io/fs\<close>.\<close>

type_synonym FileMode = "32 word"

definition ModeDir :: FileMode where "ModeDir = push_bit 31 1"
definition ModeSymlink :: FileMode where "ModeSymlink = push_bit 27 1"
definition ModeDevice :: FileMode where "ModeDevice = push_bit 26 1"
definition ModeNamedPipe :: FileMode where "ModeNamedPipe = push_bit 25 1"
definition ModeSocket :: FileMode where "ModeSocket = push_bit 24 1"
definition ModeCharDevice :: FileMode where "ModeCharDevice = push_bit 21 1"
definition ModeIrregular :: FileMode where "ModeIrregular = push_bit 19 1"

definition ModeType :: FileMode where
  "ModeType = ModeDir OR ModeSymlink OR ModeNamedPipe OR ModeSocket OR ModeDevice
                OR ModeCharDevice OR ModeIrregular"

lemmas mode_defs = ModeDir_def ModeSymlink_def ModeDevice_def ModeNamedPipe_def
  ModeSocket_def ModeCharDevice_def ModeIrregular_def ModeType_def

text \<open>\<open>FileMode.IsDir\<close> and \<open>FileMode.Type\<close>.\<close>

definition FileMode_IsDir :: "FileMode \<Rightarrow> bool" where
  "FileMode_IsDir m = (m AND ModeDir \<noteq> 0)"

definition FileMode_Type :: "FileMode \<Rightarrow> FileMode" where
  "FileMode_Type m = m AND ModeType"


section \<open>The read-only filesystem wrapper (internal/sysfs/readfs.go)\<close>

text \<open>
  The wrapped \<open>FS\<close> is an interface value (field \<open>fs\<close> of \<open>readFS\<close>,
  field \<open>f\<close> of \<open>readFile\<close>; record fields carry the struct's name as a
  prefix). It is modelled by the method the wrapper delegates to, acting on an abstract
  state \<open>'s\<close> of the wrapped filesystem and producing a \<open>platform.File\<close> of
  abstract type \<open>'f\<close>. Every invocation of the wrapped filesystem is appended to a
  call log, so that "the wrapped filesystem was not invoked" is a statement about the
  log.
\<close>

datatype fs_call = Call_OpenFile string int FileMode

record 's fs_world =
  fs_st :: 's
  fs_log :: "fs_call list"

record ('s, 'f) readFS =
  readFS_fs :: "string \<Rightarrow> int \<Rightarrow> FileMode \<Rightarrow> 's \<Rightarrow> ('f \<times> errno) \<times> 's"

record 'f readFile =
  readFile_f :: 'f

definition FS_OpenFile ::
  "(string \<Rightarrow> int \<Rightarrow> FileMode \<Rightarrow> 's \<Rightarrow> ('f \<times> errno) \<times> 's) \<Rightarrow> string \<Rightarrow> int \<Rightarrow> FileMode
     \<Rightarrow> 's fs_world \<Rightarrow> ('f \<times> errno) \<times> 's fs_world" where
  "FS_OpenFile m path flag perm w =
     (case m path flag perm (fs_st w) of
        (r, s') \<Rightarrow> (r, \<lparr>fs_st = s', fs_log = fs_log w @ [Call_OpenFile path flag perm]\<rparr>))"

definition readFS_OpenFile ::
  "('s, 'f) readFS \<Rightarrow> string \<Rightarrow> int \<Rightarrow> FileMode \<Rightarrow> 's fs_world
     \<Rightarrow> ('f readFile option \<times> errno) \<times> 's fs_world" where
  "readFS_OpenFile r path flag perm w =
     (let m = flag AND (O_RDONLY OR O_WRONLY OR O_RDWR) in
      if m = O_WRONLY \<or> m = O_RDWR then ((None, ENOSYS), w)
      else (case FS_OpenFile (readFS_fs r) path flag perm w of
              ((f, errno), w') \<Rightarrow>
                if errno \<noteq> 0 then ((None, errno), w')
                else ((Some \<lparr>readFile_f = f\<rparr>, 0), w')))"

text \<open>The path-mutating methods of \<open>readFS\<close>.\<close>

definition readFS_Mkdir :: "('s, 'f) readFS \<Rightarrow> string \<Rightarrow> FileMode \<Rightarrow> 's fs_world \<Rightarrow> errno \<times> 's fs_world" where
  "readFS_Mkdir r path perm w = (EROFS, w)"

definition readFS_Chmod :: "('s, 'f) readFS \<Rightarrow> string \<Rightarrow> FileMode \<Rightarrow> 's fs_world \<Rightarrow> errno \<times> 's fs_world" where
  "readFS_Chmod r path perm w = (EROFS, w)"

definition readFS_Chown :: "('s, 'f) readFS \<Rightarrow> string \<Rightarrow> int \<Rightarrow> int \<Rightarrow> 's fs_world \<Rightarrow> errno \<times> 's fs_world" where
  "readFS_Chown r path uid gid w = (EROFS, w)"

definition readFS_Lchown :: "('s, 'f) readFS \<Rightarrow> string \<Rightarrow> int \<Rightarrow> int \<Rightarrow> 's fs_world \<Rightarrow> errno \<times> 's fs_world" where
  "readFS_Lchown r path uid gid w = (EROFS, w)"

definition readFS_Rename :: "('s, 'f) readFS \<Rightarrow> string \<Rightarrow> string \<Rightarrow> 's fs_world \<Rightarrow> errno \<times> 's fs_world" where
  "readFS_Rename r src dst w = (EROFS, w)"

definition readFS_Rmdir :: "('s, 'f) readFS \<Rightarrow> string \<Rightarrow> 's fs_world \<Rightarrow> errno \<times> 's fs_world" where
  "readFS_Rmdir r path w = (EROFS, w)"

definition readFS_Link :: "('s, 'f) readFS \<Rightarrow> string \<Rightarrow> string \<Rightarrow> 's fs_world \<Rightarrow> errno \<times> 's fs_world" where
  "readFS_Link r old new w = (EROFS, w)"

definition readFS_Symlink :: "('s, 'f) readFS \<Rightarrow> string \<Rightarrow> string \<Rightarrow> 's fs_world \<Rightarrow> errno \<times> 's fs_world" where
  "readFS_Symlink r old new w = (EROFS, w)"

definition readFS_Unlink :: "('s, 'f) readFS \<Rightarrow> string \<Rightarrow> 's fs_world \<Rightarrow> errno \<times> 's fs_world" where
  "readFS_Unlink r path w = (EROFS, w)"

text \<open>\<open>times\<close> is a nullable pointer to two timespecs (seconds, nanoseconds).\<close>

definition readFS_Utimens ::
  "('s, 'f) readFS \<Rightarrow> string \<Rightarrow> ((int \<times> int) \<times> (int \<times> int)) option \<Rightarrow> bool \<Rightarrow> 's fs_world
     \<Rightarrow> errno \<times> 's fs_world" where
  "readFS_Utimens r path tms symlinkFollow w = (EROFS, w)"

definition readFS_Truncate :: "('s, 'f) readFS \<Rightarrow> string \<Rightarrow> int \<Rightarrow> 's fs_world \<Rightarrow> errno \<times> 's fs_world" where
  "readFS_Truncate r path sz w = (EROFS, w)"


subsection \<open>The read-only file decorator\<close>

text \<open>
  \<open>readFile\<close> wraps a \<open>platform.File\<close> interface value \<open>f\<close>. The only method of
  the wrapped file that the mutating methods reach is \<open>IsDir\<close>; it is passed as the
  method table \<open>File\<close> and may update the wrapped file (implementations cache the type).
\<close>

record 'f File =
  File_IsDir :: "'f \<Rightarrow> (bool \<times> errno) \<times> 'f"

definition readFile_IsDir :: "'f File \<Rightarrow> 'f readFile \<Rightarrow> (bool \<times> errno) \<times> 'f readFile" where
  "readFile_IsDir F r =
     (case File_IsDir F (readFile_f r) of (res, f') \<Rightarrow> (res, r\<lparr>readFile_f := f'\<rparr>))"

definition readFile_writeErr :: "'f File \<Rightarrow> 'f readFile \<Rightarrow> errno \<times> 'f readFile" where
  "readFile_writeErr F r =
     (case readFile_IsDir F r of
        ((isDir, errno), r') \<Rightarrow>
          if errno \<noteq> 0 then (errno, r')
          else if isDir then (EISDIR, r')
          else (EBADF, r'))"

type_synonym byte = "8 word"

definition readFile_Write :: "'f File \<Rightarrow> 'f readFile \<Rightarrow> byte list \<Rightarrow> (int \<times> errno) \<times> 'f readFile" where
  "readFile_Write F r buf = (case readFile_writeErr F r of (e, r') \<Rightarrow> ((0, e), r'))"

definition readFile_Pwrite ::
  "'f File \<Rightarrow> 'f readFile \<Rightarrow> byte list \<Rightarrow> int \<Rightarrow> (int \<times> errno) \<times> 'f readFile" where
  "readFile_Pwrite F r buf off = (case readFile_writeErr F r of (e, r') \<Rightarrow> ((0, e), r'))"

definition readFile_Truncate :: "'f File \<Rightarrow> 'f readFile \<Rightarrow> int \<Rightarrow> errno \<times> 'f readFile" where
  "readFile_Truncate F r sz = readFile_writeErr F r"

definition readFile_Sync :: "'f readFile \<Rightarrow> errno \<times> 'f readFile" where
  "readFile_Sync r = (EBADF, r)"

definition readFile_Datasync :: "'f readFile \<Rightarrow> errno \<times> 'f readFile" where
  "readFile_Datasync r = (EBADF, r)"

definition readFile_Chmod :: "'f readFile \<Rightarrow> FileMode \<Rightarrow> errno \<times> 'f readFile" where
  "readFile_Chmod r mode = (EBADF, r)"

definition readFile_Chown :: "'f readFile \<Rightarrow> int \<Rightarrow> int \<Rightarrow> errno \<times> 'f readFile" where
  "readFile_Chown r uid gid = (EBADF, r)"

definition readFile_Utimens ::
  "'f readFile \<Rightarrow> ((int \<times> int) \<times> (int \<times> int)) option \<Rightarrow> errno \<times> 'f readFile" where
  "readFile_Utimens r tms = (EBADF, r)"


section \<open>The native-backed file (package platform, \<open>fsFile\<close>)\<close>

text \<open>
  \<open>Stat_t\<close> is declared outside the files at hand; of its fields the code that
  follows reads \<open>Mode\<close> and sets \<open>Nlink\<close>.
\<close>

record Stat_t =
  Stat_Mode :: FileMode
  Stat_Nlink :: nat
  Stat_Size :: int

text \<open>The \<open>whence\<close> constants of package \<open>io\<close>.\<close>

definition SeekStart :: int where "SeekStart = 0"
definition SeekCurrent :: int where "SeekCurrent = 1"
definition SeekEnd :: int where "SeekEnd = 2"

text \<open>
  The backing handle \<open>f.file\<close> is an \<open>fs.File\<close> interface value whose dynamic type
  may or may not implement \<open>io.ReaderAt\<close>, \<open>io.Seeker\<close> and \<open>io.Writer\<close>; the code
  probes each with a type assertion. The handle is modelled by an abstract state \<open>'h\<close>
  and the table of its methods, an absent capability being \<open>None\<close>. Native errors are
  values of an abstract type \<open>'e\<close> (\<open>None\<close> is Go's \<open>nil\<close>). \<open>statFile\<close> and
  \<open>UnwrapOSError\<close> are helpers of package platform that are not among the files at
  hand; they are parameters of the model. A read into a buffer of length \<open>n\<close> returns
  the bytes stored into it (their number is Go's \<open>n\<close> result).
\<close>

record ('h, 'e) backing =
  b_statFile :: "'h \<Rightarrow> (Stat_t \<times> errno) \<times> 'h"
  b_Read :: "(nat \<Rightarrow> 'h \<Rightarrow> (byte list \<times> 'e option) \<times> 'h) option"
  b_ReadAt :: "(nat \<Rightarrow> int \<Rightarrow> 'h \<Rightarrow> (byte list \<times> 'e option) \<times> 'h) option"
  b_Seek :: "(int \<Rightarrow> int \<Rightarrow> 'h \<Rightarrow> (int \<times> 'e option) \<times> 'h) option"
  b_Write :: "(byte list \<Rightarrow> 'h \<Rightarrow> (int \<times> 'e option) \<times> 'h) option"
  b_Close :: "'h \<Rightarrow> 'e option \<times> 'h"
  b_UnwrapOSError :: "'e option \<Rightarrow> errno"

text \<open>Every call that reaches the backing handle is recorded next to the handle.\<close>

datatype ncall =
    N_statFile
  | N_Read nat
  | N_ReadAt nat int
  | N_Seek int int
  | N_Write "byte list"
  | N_Close

record 'h native =
  nat_h :: 'h
  nat_log :: "ncall list"

record 'h fsFile =
  fsFile_path :: string
  fsFile_accessMode :: int
  fsFile_file :: "'h native"
  fsFile_nonblock :: bool
  fsFile_cachedSt :: "FileMode option"

definition native :: "ncall \<Rightarrow> ('h \<Rightarrow> 'a \<times> 'h) \<Rightarrow> 'h fsFile \<Rightarrow> 'a \<times> 'h fsFile" where
  "native c m x =
     (case m (nat_h (fsFile_file x)) of
        (r, h') \<Rightarrow> (r, x\<lparr>fsFile_file := \<lparr>nat_h = h', nat_log = nat_log (fsFile_file x) @ [c]\<rparr>\<rparr>))"

definition NewFsFile :: "string \<Rightarrow> int \<Rightarrow> 'h \<Rightarrow> 'h fsFile" where
  "NewFsFile openPath openFlag h =
     \<lparr>fsFile_path = openPath,
      fsFile_accessMode = openFlag AND (O_RDONLY OR O_WRONLY OR O_RDWR),
      fsFile_file = \<lparr>nat_h = h, nat_log = []\<rparr>,
      fsFile_nonblock = False,
      fsFile_cachedSt = None\<rparr>"

definition fsFile_Stat :: "('h, 'e) backing \<Rightarrow> 'h fsFile \<Rightarrow> (Stat_t \<times> errno) \<times> 'h fsFile" where
  "fsFile_Stat B x =
     (case native N_statFile (b_statFile B) x of
        ((st, errno), x') \<Rightarrow>
          if errno = 0 then ((st, errno), x'\<lparr>fsFile_cachedSt := Some (Stat_Mode st AND ModeType)\<rparr>)
          else if errno = EIO then ((st, EBADF), x')
          else ((st, errno), x'))"

text \<open>
  \<open>cachedStat\<close> dereferences \<open>f.cachedSt\<close> after a successful \<open>Stat\<close>, which has set
  it; the \<open>None\<close> branch of the final read would be a nil dereference and is never taken.
\<close>

definition fsFile_cachedStat :: "('h, 'e) backing \<Rightarrow> 'h fsFile \<Rightarrow> (FileMode \<times> errno) \<times> 'h fsFile" where
  "fsFile_cachedStat B x =
     (case (if fsFile_cachedSt x = None
            then (case fsFile_Stat B x of ((st, errno), x') \<Rightarrow> (errno, x'))
            else (0, x)) of
        (errno, x') \<Rightarrow>
          if errno \<noteq> 0 then ((0, errno), x')
          else ((case fsFile_cachedSt x' of Some ft \<Rightarrow> ft | None \<Rightarrow> 0, 0), x'))"

definition fsFile_IsDir :: "('h, 'e) backing \<Rightarrow> 'h fsFile \<Rightarrow> (bool \<times> errno) \<times> 'h fsFile" where
  "fsFile_IsDir B x =
     (case fsFile_cachedStat B x of
        ((ft, errno), x') \<Rightarrow>
          if errno \<noteq> 0 then ((False, errno), x')
          else if FileMode_Type ft = ModeDir then ((True, 0), x')
          else ((False, 0), x'))"

definition fsFile_isDirErrno :: "('h, 'e) backing \<Rightarrow> 'h fsFile \<Rightarrow> errno \<times> 'h fsFile" where
  "fsFile_isDirErrno B x =
     (case fsFile_IsDir B x of
        ((isDir, errno), x') \<Rightarrow>
          if errno \<noteq> 0 then (errno, x')
          else if isDir then (EISDIR, x')
          else (0, x'))"

definition fsFile_Read ::
  "('h, 'e) backing \<Rightarrow> 'h fsFile \<Rightarrow> byte list \<Rightarrow> (byte list \<times> errno) \<times> 'h fsFile" where
  "fsFile_Read B x p =
     (if length p = 0 then (([], 0), x)
      else (case fsFile_isDirErrno B x of
              (errno, x1) \<Rightarrow>
                if errno \<noteq> 0 then (([], errno), x1)
                else if fsFile_accessMode x1 = O_WRONLY then (([], EBADF), x1)
                else (case b_Read B of
                        Some rd \<Rightarrow>
                          (case native (N_Read (length p)) (rd (length p)) x1 of
                             ((bs, err), x2) \<Rightarrow> ((bs, b_UnwrapOSError B err), x2))
                      | None \<Rightarrow> (([], EBADF), x1))))"

text \<open>
  The seek-based fallback of \<open>Pread\<close>, from the point where the deferred restore has
  been registered: \<open>pread_seek_read\<close> is the body, \<open>pread_fallback\<close> runs the
  deferred \<open>Seek(currentOffset, io.SeekStart)\<close> after it and discards its results.
\<close>

definition pread_seek_read ::
  "('h, 'e) backing \<Rightarrow> (int \<Rightarrow> int \<Rightarrow> 'h \<Rightarrow> (int \<times> 'e option) \<times> 'h)
     \<Rightarrow> (nat \<Rightarrow> 'h \<Rightarrow> (byte list \<times> 'e option) \<times> 'h)
     \<Rightarrow> int \<Rightarrow> 'h fsFile \<Rightarrow> byte list \<Rightarrow> int \<Rightarrow> (byte list \<times> errno) \<times> 'h fsFile" where
  "pread_seek_read B sk rd currentOffset x p off =
     (case (if off \<noteq> currentOffset
            then (case native (N_Seek off SeekStart) (sk off SeekStart) x of
                    ((pos, err), x') \<Rightarrow> (err, x'))
            else (None, x)) of
        (err, x1) \<Rightarrow>
          if err \<noteq> None then (([], b_UnwrapOSError B err), x1)
          else (case native (N_Read (length p)) (rd (length p)) x1 of
                  ((bs, err'), x2) \<Rightarrow> ((bs, b_UnwrapOSError B err'), x2)))"

definition pread_fallback ::
  "('h, 'e) backing \<Rightarrow> (int \<Rightarrow> int \<Rightarrow> 'h \<Rightarrow> (int \<times> 'e option) \<times> 'h)
     \<Rightarrow> (nat \<Rightarrow> 'h \<Rightarrow> (byte list \<times> 'e option) \<times> 'h)
     \<Rightarrow> 'h fsFile \<Rightarrow> byte list \<Rightarrow> int \<Rightarrow> (byte list \<times> errno) \<times> 'h fsFile" where
  "pread_fallback B sk rd x p off =
     (case native (N_Seek 0 SeekCurrent) (sk 0 SeekCurrent) x of
        ((currentOffset, err), x1) \<Rightarrow>
          if err \<noteq> None then (([], b_UnwrapOSError B err), x1)
          else (case pread_seek_read B sk rd currentOffset x1 p off of
                  (res, x2) \<Rightarrow>
                    (case native (N_Seek currentOffset SeekStart) (sk currentOffset SeekStart) x2 of
                       (ignored, x3) \<Rightarrow> (res, x3))))"

definition fsFile_Pread ::
  "('h, 'e) backing \<Rightarrow> 'h fsFile \<Rightarrow> byte list \<Rightarrow> int \<Rightarrow> (byte list \<times> errno) \<times> 'h fsFile" where
  "fsFile_Pread B x p off =
     (if length p = 0 then (([], 0), x)
      else (case fsFile_isDirErrno B x of
              (errno, x1) \<Rightarrow>
                if errno \<noteq> 0 then (([], errno), x1)
                else if fsFile_accessMode x1 = O_WRONLY then (([], EBADF), x1)
                else (case b_ReadAt B of
                        Some ra \<Rightarrow>
                          (case native (N_ReadAt (length p) off) (ra (length p) off) x1 of
                             ((bs, err), x2) \<Rightarrow> ((bs, b_UnwrapOSError B err), x2))
                      | None \<Rightarrow>
                          (case (b_Seek B, b_Read B) of
                             (Some sk, Some rd) \<Rightarrow> pread_fallback B sk rd x1 p off
                           | _ \<Rightarrow> (([], ENOSYS), x1)))))"

definition fsFile_Write ::
  "('h, 'e) backing \<Rightarrow> 'h fsFile \<Rightarrow> byte list \<Rightarrow> (int \<times> errno) \<times> 'h fsFile" where
  "fsFile_Write B x p =
     (case fsFile_isDirErrno B x of
        (errno, x1) \<Rightarrow>
          if errno \<noteq> 0 then ((0, errno), x1)
          else if fsFile_accessMode x1 = O_RDONLY then ((0, EBADF), x1)
          else if length p = 0 then ((0, 0), x1)
          else (case b_Write B of
                  Some wr \<Rightarrow>
                    (case native (N_Write p) (wr p) x1 of
                       ((n, err), x2) \<Rightarrow> ((n, b_UnwrapOSError B err), x2))
                | None \<Rightarrow> ((0, ENOSYS), x1)))"

definition fsFile_Close :: "('h, 'e) backing \<Rightarrow> 'h fsFile \<Rightarrow> errno \<times> 'h fsFile" where
  "fsFile_Close B x =
     (case native N_Close (b_Close B) x of (err, x') \<Rightarrow> (b_UnwrapOSError B err, x'))"

text \<open>
  An \<open>fsFile\<close> seen through the \<open>platform.File\<close> interface, as far as
  \<open>readFile\<close> reaches into it.
\<close>

definition fsFile_as_File :: "('h, 'e) backing \<Rightarrow> 'h fsFile File" where
  "fsFile_as_File B = \<lparr>File_IsDir = fsFile_IsDir B\<rparr>"






section \<open>The Windows quirk layer (internal/platform/wrap_windows.go)\<close>

text \<open>
  Go \<open>error\<close> values met in this layer: an error of the native layer (abstract),
  a \<open>syscall.Errno\<close> used as an error, and \<open>&fs.PathError{Op, Path, Err}\<close>.
\<close>

datatype 'e goerror =
    OSError 'e
  | Errno errno
  | PathError string string "'e goerror"

text \<open>
  The embedded \<open>osFile\<close> is a native handle \<open>'h\<close>; native calls act on the state
  \<open>'w\<close> of the operating system. \<open>openFile\<close> and \<open>statFile\<close> are helpers of
  package platform that are not among the files at hand and are parameters, like the
  methods of the native handle. Every native call is logged with the handle it is made
  on.
\<close>

record ('w, 'h, 'e, 'fi, 'de) winsys =
  ws_Close :: "'h \<Rightarrow> 'w \<Rightarrow> 'e option \<times> 'w"
  ws_openFile :: "string \<Rightarrow> int \<Rightarrow> FileMode \<Rightarrow> 'w \<Rightarrow> ('h \<times> errno) \<times> 'w"
  ws_statFile :: "'h \<Rightarrow> 'w \<Rightarrow> (Stat_t \<times> errno) \<times> 'w"
  ws_Readdir :: "'h \<Rightarrow> int \<Rightarrow> 'w \<Rightarrow> ('fi list \<times> 'e option) \<times> 'w"
  ws_ReadDir :: "'h \<Rightarrow> int \<Rightarrow> 'w \<Rightarrow> ('de list \<times> 'e option) \<times> 'w"

datatype 'h wcall =
    W_Close 'h
  | W_openFile string int FileMode
  | W_statFile 'h
  | W_Readdir 'h int
  | W_ReadDir 'h int

record ('w, 'h) winworld =
  win_os :: 'w
  win_log :: "'h wcall list"

definition wcall :: "'h wcall \<Rightarrow> ('w \<Rightarrow> 'a \<times> 'w) \<Rightarrow> ('w, 'h) winworld \<Rightarrow> 'a \<times> ('w, 'h) winworld" where
  "wcall c m W =
     (case m (win_os W) of (r, o') \<Rightarrow> (r, \<lparr>win_os = o', win_log = win_log W @ [c]\<rparr>))"

record 'h windowsWrappedFile =
  wwf_osFile :: 'h
  wwf_path :: string
  wwf_flag :: int
  wwf_perm :: FileMode
  wwf_dirInitialized :: bool
  wwf_fileType :: "FileMode option"
  wwf_closed :: bool

definition windowsWrappedFile_Close ::
  "('w, 'h, 'e, 'fi, 'de) winsys \<Rightarrow> 'h windowsWrappedFile \<Rightarrow> ('w, 'h) winworld
     \<Rightarrow> 'e goerror option \<times> 'h windowsWrappedFile \<times> ('w, 'h) winworld" where
  "windowsWrappedFile_Close S w W =
     (if wwf_closed w then (None, w, W)
      else (case wcall (W_Close (wwf_osFile w)) (ws_Close S (wwf_osFile w)) W of
              (err, W') \<Rightarrow>
                if err \<noteq> None then (map_option OSError err, w\<lparr>wwf_closed := True\<rparr>, W')
                else (map_option OSError err, w, W')))"

definition windowsWrappedFile_maybeInitDir ::
  "('w, 'h, 'e, 'fi, 'de) winsys \<Rightarrow> 'h windowsWrappedFile \<Rightarrow> ('w, 'h) winworld
     \<Rightarrow> 'e goerror option \<times> 'h windowsWrappedFile \<times> ('w, 'h) winworld" where
  "windowsWrappedFile_maybeInitDir S w W =
     (if wwf_dirInitialized w then (None, w, W)
      else (case wcall (W_Close (wwf_osFile w)) (ws_Close S (wwf_osFile w)) W of
              (err, W1) \<Rightarrow>
                if err \<noteq> None then (map_option OSError err, w, W1)
                else (case wcall (W_openFile (wwf_path w) (wwf_flag w) (wwf_perm w))
                             (ws_openFile S (wwf_path w) (wwf_flag w) (wwf_perm w)) W1 of
                        ((newW, errno), W2) \<Rightarrow>
                          if errno \<noteq> 0
                          then (Some (PathError ''OpenFile'' (wwf_path w) (Errno errno)), w, W2)
                          else (None, w\<lparr>wwf_osFile := newW, wwf_dirInitialized := True\<rparr>, W2))))"

definition windowsWrappedFile_getFileType ::
  "('w, 'h, 'e, 'fi, 'de) winsys \<Rightarrow> 'h windowsWrappedFile \<Rightarrow> ('w, 'h) winworld
     \<Rightarrow> (FileMode \<times> 'e goerror option) \<times> 'h windowsWrappedFile \<times> ('w, 'h) winworld" where
  "windowsWrappedFile_getFileType S w W =
     (case wwf_fileType w of
        None \<Rightarrow>
          (case wcall (W_statFile (wwf_osFile w)) (ws_statFile S (wwf_osFile w)) W of
             ((st, errno), W') \<Rightarrow>
               if errno \<noteq> 0 then ((0, None), w, W')
               else ((Stat_Mode st AND ModeType, None),
                     w\<lparr>wwf_fileType := Some (Stat_Mode st AND ModeType)\<rparr>, W'))
      | Some ft \<Rightarrow> ((ft, None), w, W))"

definition windowsWrappedFile_requireFile ::
  "('w, 'h, 'e, 'fi, 'de) winsys \<Rightarrow> string \<Rightarrow> bool \<Rightarrow> bool \<Rightarrow> 'h windowsWrappedFile
     \<Rightarrow> ('w, 'h) winworld \<Rightarrow> 'e goerror option \<times> 'h windowsWrappedFile \<times> ('w, 'h) winworld" where
  "windowsWrappedFile_requireFile S op readOnly isDir w W =
     (if wwf_closed w then (Some (PathError op (wwf_path w) (Errno EBADF)), w, W)
      else if readOnly \<and> wwf_flag w AND O_RDONLY = 0
      then (Some (PathError op (wwf_path w) (Errno EBADF)), w, W)
      else (case windowsWrappedFile_getFileType S w W of
              ((ft, err), w', W') \<Rightarrow>
                if err = None \<and> isDir \<noteq> FileMode_IsDir ft
                then (if isDir then (Some (PathError op (wwf_path w') (Errno ENOTDIR)), w', W')
                      else (Some (PathError op (wwf_path w') (Errno EBADF)), w', W'))
                else (case err of
                        None \<Rightarrow> (None, w', W')
                      | Some e \<Rightarrow> (Some (PathError op (wwf_path w') e), w', W'))))"

definition windowsWrappedFile_Readdir ::
  "('w, 'h, 'e, 'fi, 'de) winsys \<Rightarrow> int \<Rightarrow> 'h windowsWrappedFile \<Rightarrow> ('w, 'h) winworld
     \<Rightarrow> ('fi list \<times> 'e goerror option) \<times> 'h windowsWrappedFile \<times> ('w, 'h) winworld" where
  "windowsWrappedFile_Readdir S n w W =
     (case windowsWrappedFile_requireFile S ''Readdir'' False True w W of
        (err, w1, W1) \<Rightarrow>
          if err \<noteq> None then (([], err), w1, W1)
          else (case windowsWrappedFile_maybeInitDir S w1 W1 of
                  (err', w2, W2) \<Rightarrow>
                    if err' \<noteq> None then (([], err'), w2, W2)
                    else (case wcall (W_Readdir (wwf_osFile w2) n)
                                 (ws_Readdir S (wwf_osFile w2) n) W2 of
                            ((fis, e), W3) \<Rightarrow> ((fis, map_option OSError e), w2, W3))))"

definition windowsWrappedFile_ReadDir ::
  "('w, 'h, 'e, 'fi, 'de) winsys \<Rightarrow> int \<Rightarrow> 'h windowsWrappedFile \<Rightarrow> ('w, 'h) winworld
     \<Rightarrow> ('de list \<times> 'e goerror option) \<times> 'h windowsWrappedFile \<times> ('w, 'h) winworld" where
  "windowsWrappedFile_ReadDir S n w W =
     (case windowsWrappedFile_requireFile S ''ReadDir'' False True w W of
        (err, w1, W1) \<Rightarrow>
          if err \<noteq> None then (([], err), w1, W1)
          else (case windowsWrappedFile_maybeInitDir S w1 W1 of
                  (err', w2, W2) \<Rightarrow>
                    if err' \<noteq> None then (([], err'), w2, W2)
                    else (case wcall (W_ReadDir (wwf_osFile w2) n)
                                 (ws_ReadDir S (wwf_osFile w2) n) W2 of
                            ((dirents, e), W3) \<Rightarrow> ((dirents, map_option OSError e), w2, W3))))"

text \<open>
  A caller issuing enumeration calls, \<open>Readdir\<close> or \<open>ReadDir\<close>, one after the other
  on the same handle; the results are collected.
\<close>

datatype enum_call = Call_Readdir int | Call_ReadDir int

datatype ('fi, 'de) entries = FileInfos "'fi list" | DirEntries "'de list"

definition windowsWrappedFile_enum ::
  "('w, 'h, 'e, 'fi, 'de) winsys \<Rightarrow> enum_call \<Rightarrow> 'h windowsWrappedFile \<Rightarrow> ('w, 'h) winworld
     \<Rightarrow> (('fi, 'de) entries \<times> 'e goerror option) \<times> 'h windowsWrappedFile \<times> ('w, 'h) winworld" where
  "windowsWrappedFile_enum S c w W =
     (case c of
        Call_Readdir n \<Rightarrow>
          (case windowsWrappedFile_Readdir S n w W of
             ((fis, err), w', W') \<Rightarrow> ((FileInfos fis, err), w', W'))
      | Call_ReadDir n \<Rightarrow>
          (case windowsWrappedFile_ReadDir S n w W of
             ((ds, err), w', W') \<Rightarrow> ((DirEntries ds, err), w', W')))"


text \<open>The native calls that close or reopen a handle, in the order they were made.\<close>

fun is_reopen_call :: "'h wcall \<Rightarrow> bool" where
  "is_reopen_call (W_Close h) = True"
| "is_reopen_call (W_openFile p fl pm) = True"
| "is_reopen_call (W_statFile h) = False"
| "is_reopen_call (W_Readdir h n) = False"
| "is_reopen_call (W_ReadDir h n) = False"

definition reopen_calls :: "'h wcall list \<Rightarrow> 'h wcall list" where
  "reopen_calls cs = filter is_reopen_call cs"

section \<open>The generic-namespace adapter (internal/sysfs/adapter.go)\<close>

text \<open>
  \<open>path.Clean\<close> belongs to Go's standard library, not to the files at hand. It is
  transcribed here from the library's algorithm: the input is consumed element by
  element while the output buffer \<open>out\<close> grows; \<open>dotdot\<close> is the index in the buffer
  below which a \<open>..\<close> element must not remove anything. \<open>clean_step\<close> is one
  iteration of the library's loop on the unread input \<open>rest\<close>, \<open>clean_loop\<close> the
  loop.
\<close>

fun dot_elem :: "string \<Rightarrow> bool" where
  "dot_elem [] = False"
| "dot_elem [c] = (c = CHR ''.'')"
| "dot_elem (c # d # cs) = (c = CHR ''.'' \<and> d = CHR ''/'')"

fun dotdot_elem :: "string \<Rightarrow> bool" where
  "dotdot_elem [] = False"
| "dotdot_elem [c] = False"
| "dotdot_elem [c, d] = (c = CHR ''.'' \<and> d = CHR ''.'')"
| "dotdot_elem (c # d # e # cs) = (c = CHR ''.'' \<and> d = CHR ''.'' \<and> e = CHR ''/'')"

text \<open>
  The inner loop of the \<open>..\<close> case, started after \<open>out.w--\<close>: it steps back while
  \<open>out.w > dotdot\<close> and the byte at \<open>out.w\<close> is not a separator.
\<close>

fun backtrack :: "string \<Rightarrow> nat \<Rightarrow> nat \<Rightarrow> nat" where
  "backtrack buf w dotdot =
     (if w > dotdot \<and> buf ! w \<noteq> CHR ''/'' then backtrack buf (w - 1) dotdot else w)"

declare backtrack.simps [simp del]

definition clean_step :: "bool \<Rightarrow> string \<Rightarrow> string \<Rightarrow> nat \<Rightarrow> string \<times> string \<times> nat" where
  "clean_step rooted rest out dotdot =
     (case rest of
        [] \<Rightarrow> ([], out, dotdot)
      | c # cs \<Rightarrow>
          if c = CHR ''/'' then (cs, out, dotdot)
          else if dot_elem rest then (cs, out, dotdot)
          else if dotdot_elem rest then
            (if length out > dotdot
             then (drop 1 cs, take (backtrack out (length out - 1) dotdot) out, dotdot)
             else if \<not> rooted
             then (drop 1 cs, (if length out > 0 then out @ ''/'' else out) @ ''..'',
                   length ((if length out > 0 then out @ ''/'' else out) @ ''..''))
             else (drop 1 cs, out, dotdot))
          else (dropWhile (\<lambda>x. x \<noteq> CHR ''/'') cs,
                (if rooted \<and> length out \<noteq> 1 \<or> \<not> rooted \<and> length out \<noteq> 0
                 then out @ ''/'' else out) @ c # takeWhile (\<lambda>x. x \<noteq> CHR ''/'') cs,
                dotdot))"

function clean_loop :: "bool \<Rightarrow> string \<Rightarrow> string \<Rightarrow> nat \<Rightarrow> string" where
  "clean_loop rooted rest out dotdot =
     (if rest = [] then out
      else (case clean_step rooted rest out dotdot of
              (rest', out', dotdot') \<Rightarrow> clean_loop rooted rest' out' dotdot'))"
  by pat_completeness auto
termination
proof (relation "measure (\<lambda>(rooted, rest, out, dotdot). length rest)")
  show "wf (measure (\<lambda>(rooted, rest, out, dotdot). length rest))"
    by simp
next
  fix rooted :: bool and rest out :: string and dotdot :: nat
    and x :: string and xa :: "string \<times> nat" and a :: string and b :: nat
  assume "rest \<noteq> []" and "(x, xa) = clean_step rooted rest out dotdot" and "(a, b) = xa"
  then show "((rooted, x, a, b), rooted, rest, out, dotdot)
               \<in> measure (\<lambda>(rooted, rest, out, dotdot). length rest)"
    by (cases rest)
      (auto simp: clean_step_def less_Suc_eq_le length_dropWhile_le split: if_splits)
qed

declare clean_loop.simps [simp del]

definition path_Clean :: "string \<Rightarrow> string" where
  "path_Clean p =
     (case p of
        [] \<Rightarrow> ''.''
      | c # cs \<Rightarrow>
          (let out = (if c = CHR ''/'' then clean_loop True cs ''/'' 1
                      else clean_loop False p [] 0)
           in if length out = 0 then ''.'' else out))"

definition cleanPath :: "string \<Rightarrow> string" where
  "cleanPath name =
     (case name of
        [] \<Rightarrow> name
      | c # cs \<Rightarrow> path_Clean (if c = CHR ''/'' then cs else name))"

text \<open>
  Lexical cleaning as the specification words it: the path is read as a sequence of
  elements separated by \<open>/\<close>, redundant separators leaving no empty element behind
  (\<open>elems\<close>); each \<open>.\<close> element is dropped, each \<open>..\<close> element removes the element
  before it, is dropped at the root of a rooted path, and is kept where nothing but
  \<open>..\<close> precedes it in a relative path (\<open>resolve\<close>); what remains is joined with single
  separators behind the root, and an empty result is written \<open>.\<close>.
\<close>

function elems :: "string \<Rightarrow> string list" where
  "elems [] = []"
| "elems (c # cs) =
     (if c = CHR ''/'' then elems cs
      else (c # takeWhile (\<lambda>x. x \<noteq> CHR ''/'') cs) # elems (dropWhile (\<lambda>x. x \<noteq> CHR ''/'') cs))"
  by pat_completeness auto
termination
  by (relation "measure length") (auto simp: less_Suc_eq_le length_dropWhile_le)

fun resolve :: "bool \<Rightarrow> string list \<Rightarrow> string list \<Rightarrow> string list" where
  "resolve rooted st [] = st"
| "resolve rooted st (e # es) =
     (if e = ''.'' then resolve rooted st es
      else if e = ''..'' then
        (if st \<noteq> [] \<and> last st \<noteq> ''..'' then resolve rooted (butlast st) es
         else if rooted then resolve rooted st es
         else resolve rooted (st @ [''..'']) es)
      else resolve rooted (st @ [e]) es)"

fun join :: "string list \<Rightarrow> string" where
  "join [] = []"
| "join [e] = e"
| "join (e # f # es) = e @ CHR ''/'' # join (f # es)"

definition lexical_clean :: "string \<Rightarrow> string" where
  "lexical_clean p =
     (case p of
        [] \<Rightarrow> ''.''
      | c # cs \<Rightarrow>
          (let s = (if c = CHR ''/'' then ''/'' else []) @ join (resolve (c = CHR ''/'') [] (elems p))
           in if s = [] then ''.'' else s))"

text \<open>
  How a state of the library's loop stands for a stack \<open>st\<close> of elements: the buffer
  holds the elements joined behind the root, and \<open>dotdot\<close> marks the end of the leading
  \<open>..\<close> elements (of the root, in a rooted path).
\<close>

definition root_of :: "bool \<Rightarrow> string" where
  "root_of rooted = (if rooted then ''/'' else [])"

definition clean_inv :: "bool \<Rightarrow> string list \<Rightarrow> string \<Rightarrow> nat \<Rightarrow> bool" where
  "clean_inv rooted st out dotdot \<longleftrightarrow>
     out = root_of rooted @ join st
     \<and> dotdot = length (root_of rooted @ join (takeWhile (\<lambda>e. e = ''..'') st))
     \<and> (\<forall>e\<in>set st. e \<noteq> [] \<and> CHR ''/'' \<notin> set e)
     \<and> (rooted \<longrightarrow> ''..'' \<notin> set st)
     \<and> (\<forall>e\<in>set (dropWhile (\<lambda>e. e = ''..'') st). e \<noteq> ''..'')"

text \<open>
  The namespace is an \<open>fs.FS\<close> interface value, modelled by its \<open>Open\<close> method over
  an abstract state; the paths it is asked to open are logged. \<open>UnwrapOSError\<close> is a
  parameter as before.
\<close>

record 's ns_world =
  ns_st :: 's
  ns_log :: "string list"

record ('s, 'h, 'e) adapter =
  adapter_fs :: "string \<Rightarrow> 's \<Rightarrow> ('h \<times> 'e option) \<times> 's"

definition FS_Open ::
  "(string \<Rightarrow> 's \<Rightarrow> ('h \<times> 'e option) \<times> 's) \<Rightarrow> string \<Rightarrow> 's ns_world
     \<Rightarrow> ('h \<times> 'e option) \<times> 's ns_world" where
  "FS_Open m name W =
     (case m name (ns_st W) of (r, s') \<Rightarrow> (r, \<lparr>ns_st = s', ns_log = ns_log W @ [name]\<rparr>))"

definition adapter_OpenFile ::
  "('e option \<Rightarrow> errno) \<Rightarrow> ('s, 'h, 'e) adapter \<Rightarrow> string \<Rightarrow> int \<Rightarrow> FileMode \<Rightarrow> 's ns_world
     \<Rightarrow> ('h fsFile \<times> errno) \<times> 's ns_world" where
  "adapter_OpenFile UnwrapOSError a path flag perm W =
     (case FS_Open (adapter_fs a) (cleanPath path) W of
        ((h, err), W') \<Rightarrow> ((NewFsFile (cleanPath path) flag h, UnwrapOSError err), W'))"

section \<open>An in-memory backing handle\<close>

text \<open>
  A concrete backing handle on which the model can be run: a byte string with a read
  position, behaving like the standard in-memory readers (sequential read, seek that
  rejects a negative resulting position, close that reports a second close). It offers
  \<open>Read\<close> and \<open>Seek\<close> but neither \<open>ReadAt\<close> nor \<open>Write\<close>.
\<close>

datatype memerr = ErrEOF | ErrNegativePosition | ErrClosed | ErrInvalid | ErrIO

record memFile =
  mem_data :: "byte list"
  mem_pos :: nat
  mem_mode :: FileMode
  mem_closed :: bool

definition mem_statFile :: "memFile \<Rightarrow> (Stat_t \<times> errno) \<times> memFile" where
  "mem_statFile h =
     ((\<lparr>Stat_Mode = mem_mode h, Stat_Nlink = 1, Stat_Size = int (length (mem_data h))\<rparr>, 0), h)"

definition mem_Read :: "nat \<Rightarrow> memFile \<Rightarrow> (byte list \<times> memerr option) \<times> memFile" where
  "mem_Read n h =
     (if length (mem_data h) \<le> mem_pos h then (([], Some ErrEOF), h)
      else ((take n (drop (mem_pos h) (mem_data h)), None),
            h\<lparr>mem_pos := mem_pos h + length (take n (drop (mem_pos h) (mem_data h)))\<rparr>))"

definition mem_Seek :: "int \<Rightarrow> int \<Rightarrow> memFile \<Rightarrow> (int \<times> memerr option) \<times> memFile" where
  "mem_Seek off whence h =
     (let abs = (if whence = SeekStart then off
                 else if whence = SeekCurrent then int (mem_pos h) + off
                 else int (length (mem_data h)) + off)
      in if abs < 0 then ((0, Some ErrNegativePosition), h)
         else ((abs, None), h\<lparr>mem_pos := nat abs\<rparr>))"

definition mem_Close :: "memFile \<Rightarrow> memerr option \<times> memFile" where
  "mem_Close h = (if mem_closed h then (Some ErrClosed, h) else (None, h\<lparr>mem_closed := True\<rparr>))"

definition mem_UnwrapOSError :: "memerr option \<Rightarrow> errno" where
  "mem_UnwrapOSError err =
     (case err of None \<Rightarrow> 0 | Some ErrEOF \<Rightarrow> 0 | Some ErrNegativePosition \<Rightarrow> EIO
      | Some ErrClosed \<Rightarrow> EBADF | Some ErrInvalid \<Rightarrow> EINVAL | Some ErrIO \<Rightarrow> EIO)"

definition memSeeker :: "(memFile, memerr) backing" where
  "memSeeker =
     \<lparr>b_statFile = mem_statFile, b_Read = Some mem_Read, b_ReadAt = None,
      b_Seek = Some mem_Seek, b_Write = None, b_Close = mem_Close,
      b_UnwrapOSError = mem_UnwrapOSError\<rparr>"

definition memOpen :: "byte list \<Rightarrow> FileMode \<Rightarrow> memFile" where
  "memOpen bs m = \<lparr>mem_data = bs, mem_pos = 0, mem_mode = m, mem_closed = False\<rparr>"

text \<open>The same handle with only \<open>Read\<close>, the least an \<open>fs.File\<close> must offer.\<close>

definition memReader :: "(memFile, memerr) backing" where
  "memReader = memSeeker\<lparr>b_Seek := None\<rparr>"

text \<open>The same handle with a positional read that rejects a negative offset.\<close>

definition mem_ReadAt :: "nat \<Rightarrow> int \<Rightarrow> memFile \<Rightarrow> (byte list \<times> memerr option) \<times> memFile" where
  "mem_ReadAt n off h =
     (if off < 0 then (([], Some ErrNegativePosition), h)
      else if int (length (mem_data h)) \<le> off then (([], Some ErrEOF), h)
      else ((take n (drop (nat off) (mem_data h)),
             if length (take n (drop (nat off) (mem_data h))) < n then Some ErrEOF else None), h))"

definition memReaderAt :: "(memFile, memerr) backing" where
  "memReaderAt = memSeeker\<lparr>b_ReadAt := Some mem_ReadAt\<rparr>"

text \<open>A regular 20-byte file whose sequential position is 3.\<close>

definition digits20 :: "byte list" where
  "digits20 = [0, 1, 2, 3, 4, 5, 6, 7, 8, 9, 10, 11, 12, 13, 14, 15, 16, 17, 18, 19]"

definition file20 :: "memFile fsFile" where
  "file20 = NewFsFile ''file.bin'' O_RDONLY ((memOpen digits20 420)\<lparr>mem_pos := 3\<rparr>)"

text \<open>An empty directory.\<close>

definition dirFile :: "memFile fsFile" where
  "dirFile = NewFsFile ''dir'' O_RDONLY (memOpen [] ModeDir)"













lemmas mem_defs = mem_statFile_def mem_Read_def mem_Seek_def mem_Close_def
  mem_UnwrapOSError_def memSeeker_def memReader_def memOpen_def mem_ReadAt_def memReaderAt_def


lemmas fsFile_defs = native_def NewFsFile_def fsFile_Stat_def fsFile_cachedStat_def
  fsFile_IsDir_def fsFile_isDirErrno_def fsFile_Read_def fsFile_Pread_def fsFile_Write_def
  fsFile_Close_def pread_fallback_def pread_seek_read_def

subsection \<open>A counting native layer for the Windows quirk layer\<close>

text \<open>
  Native handles are numbers and the state of the system is the next unused number:
  \<open>openFile\<close> hands it out, \<open>Close\<close> always succeeds, an enumeration returns the
  number of the handle it ran on, and the native stat reports a directory together with
  the errno given as parameter.
\<close>

definition countingWin :: "errno \<Rightarrow> (nat, nat, unit, nat, nat) winsys" where
  "countingWin statErrno =
     \<lparr>ws_Close = (\<lambda>h s. (None, s)),
      ws_openFile = (\<lambda>p fl pm s. ((s, 0), Suc s)),
      ws_statFile = (\<lambda>h s. ((\<lparr>Stat_Mode = ModeDir, Stat_Nlink = 1, Stat_Size = 0\<rparr>, statErrno), s)),
      ws_Readdir = (\<lambda>h n s. (([h], None), s)),
      ws_ReadDir = (\<lambda>h n s. (([h], None), s))\<rparr>"

definition dirHandle :: "nat windowsWrappedFile" where
  "dirHandle =
     \<lparr>wwf_osFile = 0, wwf_path = ''dir'', wwf_flag = 0, wwf_perm = 0,
      wwf_dirInitialized = False, wwf_fileType = None, wwf_closed = False\<rparr>"

definition freshWin :: "(nat, nat) winworld" where
  "freshWin = \<lparr>win_os = 1, win_log = []\<rparr>"

lemmas wwf_defs = wcall_def windowsWrappedFile_Close_def windowsWrappedFile_maybeInitDir_def
  windowsWrappedFile_getFileType_def windowsWrappedFile_requireFile_def
  windowsWrappedFile_Readdir_def windowsWrappedFile_ReadDir_def windowsWrappedFile_enum_def

text \<open>The same native layer with an \<open>openFile\<close> that always fails.\<close>

definition noReopenWin :: "(nat, nat, unit, nat, nat) winsys" where
  "noReopenWin = (countingWin 0)\<lparr>ws_openFile := (\<lambda>p fl pm s. ((0, ENOENT), s))\<rparr>"

lemmas win_fix_defs = countingWin_def dirHandle_def freshWin_def noReopenWin_def

subsection \<open>A namespace that opens every path\<close>

text \<open>The state counts the \<open>Open\<close> calls; every path yields an empty regular file.\<close>

definition countingFS :: "(nat, memFile, memerr) adapter" where
  "countingFS = \<lparr>adapter_fs = (\<lambda>name s. ((memOpen [] 420, None), Suc s))\<rparr>"

section \<open>Properties of the read-only filesystem wrapper\<close>

lemma rw_mask: "O_RDONLY OR O_WRONLY OR O_RDWR = (mask 2 :: int)"
  by (simp add: oflag_defs mask_eq_exp_minus_1)

lemma flag_masked: "flag AND (O_RDONLY OR O_WRONLY OR O_RDWR) = flag mod 4"
  by (simp add: rw_mask take_bit_eq_mod flip: take_bit_eq_mask)

text \<open>
  C1. \<open>readFS.OpenFile\<close> looks only at the read/write-intent bits of the flag (the
  flag masked with \<open>O_RDONLY|O_WRONLY|O_RDWR\<close>, that is its two lowest bits). When the
  masked value is \<open>O_WRONLY\<close> or \<open>O_RDWR\<close> it returns no file and \<open>ENOSYS\<close> and
  the wrapped filesystem is not invoked (state and call log are unchanged). Otherwise it
  invokes the wrapped \<open>OpenFile\<close> exactly once with the same path, flag and permission;
  a non-zero errno is passed on with no file, and on success the returned file is wrapped
  in a \<open>readFile\<close>.
\<close>

theorem readFS_OpenFile_spec:
  fixes r :: "('s, 'f) readFS"
  shows "(flag AND (O_RDONLY OR O_WRONLY OR O_RDWR) = flag mod 4)
     \<and> (flag mod 4 = O_WRONLY \<or> flag mod 4 = O_RDWR
          \<longrightarrow> readFS_OpenFile r path flag perm w = ((None, ENOSYS), w))
     \<and> (flag mod 4 \<noteq> O_WRONLY \<and> flag mod 4 \<noteq> O_RDWR
          \<longrightarrow> (\<forall>g e s'. readFS_fs r path flag perm (fs_st w) = ((g, e), s')
                \<longrightarrow> readFS_OpenFile r path flag perm w =
                      ((if e \<noteq> 0 then None else Some \<lparr>readFile_f = g\<rparr>, e),
                       \<lparr>fs_st = s', fs_log = fs_log w @ [Call_OpenFile path flag perm]\<rparr>)))"
  by (auto simp: readFS_OpenFile_def FS_OpenFile_def flag_masked Let_def)

theorem readFS_OpenFile_spec_witness:
  "readFS_OpenFile \<lparr>readFS_fs = (\<lambda>p fl pm (s::nat). ((p, 0), Suc s))\<rparr> ''/etc/hosts'' 65 420
       \<lparr>fs_st = 0, fs_log = []\<rparr> = ((None, ENOSYS), \<lparr>fs_st = 0, fs_log = []\<rparr>)
   \<and> readFS_OpenFile \<lparr>readFS_fs = (\<lambda>p fl pm (s::nat). ((p, 0), Suc s))\<rparr> ''/etc/hosts'' 64 420
       \<lparr>fs_st = 0, fs_log = []\<rparr>
       = ((Some \<lparr>readFile_f = ''/etc/hosts''\<rparr>, 0),
          \<lparr>fs_st = 1, fs_log = [Call_OpenFile ''/etc/hosts'' 64 420]\<rparr>)"
  using readFS_OpenFile_spec [of 65 "\<lparr>readFS_fs = (\<lambda>p fl pm (s::nat). ((p, 0), Suc s))\<rparr>"
          "''/etc/hosts''" 420 "\<lparr>fs_st = 0, fs_log = []\<rparr>"]
        readFS_OpenFile_spec [of 64 "\<lparr>readFS_fs = (\<lambda>p fl pm (s::nat). ((p, 0), Suc s))\<rparr>"
          "''/etc/hosts''" 420 "\<lparr>fs_st = 0, fs_log = []\<rparr>"]
  by (simp add: oflag_defs)

text \<open>
  C7. Each path-mutating operation of \<open>readFS\<close> (Mkdir, Chmod, Chown, Lchown, Rename,
  Rmdir, Link, Symlink, Unlink, Utimens, Truncate) returns \<open>EROFS\<close> for every argument,
  which is not \<open>ENOSYS\<close>, and leaves the wrapped filesystem and its call log untouched.
\<close>

theorem readFS_mutations_EROFS:
  fixes r :: "('s, 'f) readFS"
  shows "readFS_Mkdir r path perm w = (EROFS, w)
     \<and> readFS_Chmod r path perm w = (EROFS, w)
     \<and> readFS_Chown r path uid gid w = (EROFS, w)
     \<and> readFS_Lchown r path uid gid w = (EROFS, w)
     \<and> readFS_Rename r path path' w = (EROFS, w)
     \<and> readFS_Rmdir r path w = (EROFS, w)
     \<and> readFS_Link r path path' w = (EROFS, w)
     \<and> readFS_Symlink r path path' w = (EROFS, w)
     \<and> readFS_Unlink r path w = (EROFS, w)
     \<and> readFS_Utimens r path tms follow w = (EROFS, w)
     \<and> readFS_Truncate r path sz w = (EROFS, w)
     \<and> EROFS \<noteq> ENOSYS \<and> EROFS \<noteq> 0"
  by (simp add: readFS_Mkdir_def readFS_Chmod_def readFS_Chown_def readFS_Lchown_def
      readFS_Rename_def readFS_Rmdir_def readFS_Link_def readFS_Symlink_def readFS_Unlink_def
      readFS_Utimens_def readFS_Truncate_def EROFS_def ENOSYS_def)

section \<open>Properties of the read-only file decorator\<close>

text \<open>
  C4 (as stated) fails: \<open>readFile.Chmod\<close>, \<open>Chown\<close> and \<open>Utimens\<close> do not look at
  the handle's type. On a directory handle, for which \<open>writeErr\<close> (and so \<open>Write\<close>)
  reports \<open>EISDIR\<close>, they report \<open>EBADF\<close>.
\<close>

theorem readFile_Chmod_directory_counterexample:
  "fst (readFile_Write (fsFile_as_File memSeeker) \<lparr>readFile_f = dirFile\<rparr> [1]) = (0, EISDIR)
   \<and> fst (readFile_Chmod \<lparr>readFile_f = dirFile\<rparr> 493) = EBADF
   \<and> fst (readFile_Chown \<lparr>readFile_f = dirFile\<rparr> 0 0) = EBADF
   \<and> fst (readFile_Utimens \<lparr>readFile_f = dirFile\<rparr> None) = EBADF
   \<and> EBADF \<noteq> EISDIR"
  by (simp add: readFile_Write_def readFile_writeErr_def readFile_IsDir_def readFile_Chmod_def
      readFile_Chown_def readFile_Utimens_def fsFile_as_File_def dirFile_def fsFile_defs
      mem_defs oflag_defs mode_defs FileMode_Type_def errno_defs)

text \<open>
  C4 (amended). Every mutating method of \<open>readFile\<close> fails. \<open>Write\<close>, \<open>Pwrite\<close>
  and \<open>Truncate\<close> transfer nothing and choose the code by re-checking the handle's type
  through \<open>IsDir\<close>: the errno of \<open>IsDir\<close> when that check itself fails, \<open>EISDIR\<close>
  when the handle is a directory and \<open>EBADF\<close> otherwise. \<open>Chmod\<close>, \<open>Chown\<close> and
  \<open>Utimens\<close> fail with \<open>EBADF\<close> unconditionally, without consulting the wrapped file.
\<close>

theorem readFile_mutations_fail:
  fixes F :: "'f File" and r :: "'f readFile"
  assumes "File_IsDir F (readFile_f r) = ((isDir, e), f')"
  defines "code \<equiv> (if e \<noteq> 0 then e else if isDir then EISDIR else EBADF)"
  shows "readFile_Write F r buf = ((0, code), r\<lparr>readFile_f := f'\<rparr>)
     \<and> readFile_Pwrite F r buf off = ((0, code), r\<lparr>readFile_f := f'\<rparr>)
     \<and> readFile_Truncate F r sz = (code, r\<lparr>readFile_f := f'\<rparr>)
     \<and> code \<noteq> 0
     \<and> readFile_Chmod r mode = (EBADF, r)
     \<and> readFile_Chown r uid gid = (EBADF, r)
     \<and> readFile_Utimens r tms = (EBADF, r)
     \<and> EBADF \<noteq> 0"
  using assms
  by (simp add: readFile_Write_def readFile_Pwrite_def readFile_Truncate_def
      readFile_writeErr_def readFile_IsDir_def readFile_Chmod_def readFile_Chown_def
      readFile_Utimens_def EBADF_def EISDIR_def)

theorem readFile_mutations_fail_witness:
  "readFile_Write (fsFile_as_File memSeeker) \<lparr>readFile_f = file20\<lparr>fsFile_cachedSt := Some 0\<rparr>\<rparr> [1, 2]
      = ((0, EBADF), \<lparr>readFile_f = file20\<lparr>fsFile_cachedSt := Some 0\<rparr>\<rparr>)
   \<and> readFile_Truncate (fsFile_as_File memSeeker) \<lparr>readFile_f = dirFile\<lparr>fsFile_cachedSt := Some ModeDir\<rparr>\<rparr> 7
      = (EISDIR, \<lparr>readFile_f = dirFile\<lparr>fsFile_cachedSt := Some ModeDir\<rparr>\<rparr>)
   \<and> readFile_Chmod \<lparr>readFile_f = file20\<lparr>fsFile_cachedSt := Some 0\<rparr>\<rparr> 420
      = (EBADF, \<lparr>readFile_f = file20\<lparr>fsFile_cachedSt := Some 0\<rparr>\<rparr>)"
proof -
  have a: "File_IsDir (fsFile_as_File memSeeker)
             (readFile_f \<lparr>readFile_f = file20\<lparr>fsFile_cachedSt := Some 0\<rparr>\<rparr>)
             = ((False, 0), file20\<lparr>fsFile_cachedSt := Some 0\<rparr>)"
    by (simp add: fsFile_as_File_def fsFile_IsDir_def fsFile_cachedStat_def FileMode_Type_def
        mode_defs)
  have b: "File_IsDir (fsFile_as_File memSeeker)
             (readFile_f \<lparr>readFile_f = dirFile\<lparr>fsFile_cachedSt := Some ModeDir\<rparr>\<rparr>)
             = ((True, 0), dirFile\<lparr>fsFile_cachedSt := Some ModeDir\<rparr>)"
    by (simp add: fsFile_as_File_def fsFile_IsDir_def fsFile_cachedStat_def FileMode_Type_def
        mode_defs)
  show ?thesis
    using readFile_mutations_fail [OF a, of "[1, 2]" 0 0 420 0 0 None]
      readFile_mutations_fail [OF b, of "[]" 0 7 420 0 0 None]
    by simp
qed

section \<open>Properties of the native-backed file\<close>

lemma fsFile_isDirErrno_accessMode:
  "fsFile_isDirErrno B x = (e, x1) \<Longrightarrow> fsFile_accessMode x1 = fsFile_accessMode x"
  by (auto simp: fsFile_isDirErrno_def fsFile_IsDir_def fsFile_cachedStat_def fsFile_Stat_def
      native_def split: prod.splits if_splits)

lemma fsFile_isDirErrno_cached:
  "fsFile_cachedSt x = Some ft \<Longrightarrow>
     fsFile_isDirErrno B x = (if FileMode_Type ft = ModeDir then EISDIR else 0, x)"
  by (simp add: fsFile_isDirErrno_def fsFile_IsDir_def fsFile_cachedStat_def)

lemma fsFile_isDirErrno_uncached:
  "fsFile_cachedSt x = None \<Longrightarrow> b_statFile B (nat_h (fsFile_file x)) = ((st, e), h') \<Longrightarrow>
     fsFile_isDirErrno B x =
       (if e = EIO then EBADF else if e \<noteq> 0 then e
        else if FileMode_Type (Stat_Mode st AND ModeType) = ModeDir then EISDIR else 0,
        x\<lparr>fsFile_file := \<lparr>nat_h = h', nat_log = nat_log (fsFile_file x) @ [N_statFile]\<rparr>,
          fsFile_cachedSt := (if e = 0 then Some (Stat_Mode st AND ModeType) else None)\<rparr>)"
  by (simp add: fsFile_isDirErrno_def fsFile_IsDir_def fsFile_cachedStat_def fsFile_Stat_def
      native_def errno_defs)

text \<open>
  C3 (as stated) fails for \<open>Write\<close>: on a regular file opened \<open>O_RDONLY\<close> whose type
  is not yet cached, \<open>Write\<close> with an empty buffer performs the native stat and returns
  \<open>EBADF\<close>.
\<close>

theorem fsFile_Write_empty_counterexample:
  "fsFile_Write memSeeker (NewFsFile ''f'' O_RDONLY (memOpen [1, 2, 3] 420)) []
     = ((0, EBADF),
        \<lparr>fsFile_path = ''f'', fsFile_accessMode = 0,
         fsFile_file = \<lparr>nat_h = memOpen [1, 2, 3] 420, nat_log = [N_statFile]\<rparr>,
         fsFile_nonblock = False, fsFile_cachedSt = Some 0\<rparr>)
   \<and> EBADF \<noteq> 0"
  by (simp add: fsFile_defs mem_defs oflag_defs mode_defs FileMode_Type_def errno_defs)

text \<open>
  C3 (amended). \<open>Read\<close> (and \<open>Pread\<close>) with a zero-length buffer return success with
  zero bytes and leave the file, the backing handle and its call log untouched, whatever
  the access mode and the file type. \<open>Write\<close> with a zero-length buffer first runs the
  directory check and the access-mode check: with a cached type it invokes nothing on the
  handle and returns \<open>EISDIR\<close> for a directory, \<open>EBADF\<close> for a file opened
  \<open>O_RDONLY\<close>, and success with zero bytes otherwise; with no cached type it performs
  exactly one native stat, returns that stat's errno when it fails (\<open>EIO\<close> as
  \<open>EBADF\<close>), and otherwise decides in the same way. The native write is never invoked.
\<close>

theorem fsFile_zero_length:
  fixes B :: "('h, 'e) backing" and x :: "'h fsFile"
  shows "fsFile_Read B x [] = (([], 0), x)
     \<and> fsFile_Pread B x [] off = (([], 0), x)
     \<and> (\<forall>ft. fsFile_cachedSt x = Some ft \<longrightarrow>
           fsFile_Write B x [] =
             ((0, if FileMode_Type ft = ModeDir then EISDIR
                  else if fsFile_accessMode x = O_RDONLY then EBADF else 0), x))
     \<and> (\<forall>st e h'. fsFile_cachedSt x = None \<and> b_statFile B (nat_h (fsFile_file x)) = ((st, e), h') \<longrightarrow>
           fsFile_Write B x [] =
             ((0, if e = EIO then EBADF else if e \<noteq> 0 then e
                  else if FileMode_Type (Stat_Mode st AND ModeType) = ModeDir then EISDIR
                  else if fsFile_accessMode x = O_RDONLY then EBADF else 0),
              x\<lparr>fsFile_file := \<lparr>nat_h = h', nat_log = nat_log (fsFile_file x) @ [N_statFile]\<rparr>,
                fsFile_cachedSt := (if e = 0 then Some (Stat_Mode st AND ModeType) else None)\<rparr>))"
proof (intro conjI allI impI)
  show "fsFile_Read B x [] = (([], 0), x)" by (simp add: fsFile_Read_def)
  show "fsFile_Pread B x [] off = (([], 0), x)" by (simp add: fsFile_Pread_def)
next
  fix ft assume "fsFile_cachedSt x = Some ft"
  then show "fsFile_Write B x [] =
             ((0, if FileMode_Type ft = ModeDir then EISDIR
                  else if fsFile_accessMode x = O_RDONLY then EBADF else 0), x)"
    by (simp add: fsFile_Write_def fsFile_isDirErrno_cached errno_defs)
next
  fix st e h'
  assume a: "fsFile_cachedSt x = None \<and> b_statFile B (nat_h (fsFile_file x)) = ((st, e), h')"
  show "fsFile_Write B x [] =
             ((0, if e = EIO then EBADF else if e \<noteq> 0 then e
                  else if FileMode_Type (Stat_Mode st AND ModeType) = ModeDir then EISDIR
                  else if fsFile_accessMode x = O_RDONLY then EBADF else 0),
              x\<lparr>fsFile_file := \<lparr>nat_h = h', nat_log = nat_log (fsFile_file x) @ [N_statFile]\<rparr>,
                fsFile_cachedSt := (if e = 0 then Some (Stat_Mode st AND ModeType) else None)\<rparr>)"
    using a by (simp add: fsFile_Write_def fsFile_isDirErrno_uncached errno_defs)
qed

theorem fsFile_zero_length_witness:
  "fsFile_Read memSeeker (NewFsFile ''d'' O_WRONLY (memOpen [] ModeDir)) []
     = (([], 0), NewFsFile ''d'' O_WRONLY (memOpen [] ModeDir))
   \<and> fsFile_Write memSeeker (NewFsFile ''f'' O_RDWR (memOpen [1, 2, 3] 420)) []
     = ((0, 0),
        \<lparr>fsFile_path = ''f'', fsFile_accessMode = 2,
         fsFile_file = \<lparr>nat_h = memOpen [1, 2, 3] 420, nat_log = [N_statFile]\<rparr>,
         fsFile_nonblock = False, fsFile_cachedSt = Some 0\<rparr>)
   \<and> fsFile_Write memSeeker
        ((NewFsFile ''d'' O_RDWR (memOpen [] ModeDir))\<lparr>fsFile_cachedSt := Some ModeDir\<rparr>) []
     = ((0, EISDIR), (NewFsFile ''d'' O_RDWR (memOpen [] ModeDir))\<lparr>fsFile_cachedSt := Some ModeDir\<rparr>)"
  using fsFile_zero_length [of memSeeker "NewFsFile ''d'' O_WRONLY (memOpen [] ModeDir)" 0]
    fsFile_zero_length [of memSeeker "NewFsFile ''f'' O_RDWR (memOpen [1, 2, 3] 420)" 0]
    fsFile_zero_length [of memSeeker
      "(NewFsFile ''d'' O_RDWR (memOpen [] ModeDir))\<lparr>fsFile_cachedSt := Some ModeDir\<rparr>" 0]
  by (simp add: NewFsFile_def mem_defs oflag_defs mode_defs FileMode_Type_def errno_defs)

























lemma fsFile_Pread_ReadAt:
  fixes B :: "('h, 'e) backing" and x :: "'h fsFile"
  assumes "p \<noteq> []" and "fsFile_isDirErrno B x = (0, x1)" and "fsFile_accessMode x \<noteq> O_WRONLY"
    and "b_ReadAt B = Some ra"
    and "ra (length p) off (nat_h (fsFile_file x1)) = ((bs, err), h')"
  shows "fsFile_Pread B x p off =
           ((bs, b_UnwrapOSError B err),
            x1\<lparr>fsFile_file :=
                 \<lparr>nat_h = h', nat_log = nat_log (fsFile_file x1) @ [N_ReadAt (length p) off]\<rparr>\<rparr>)"
  using assms fsFile_isDirErrno_accessMode [OF assms(2)]
  by (auto simp: fsFile_Pread_def native_def split: option.splits)

lemma fsFile_Pread_unsupported:
  fixes B :: "('h, 'e) backing" and x :: "'h fsFile"
  assumes "p \<noteq> []" and "fsFile_isDirErrno B x = (0, x1)" and "fsFile_accessMode x \<noteq> O_WRONLY"
    and "b_ReadAt B = None" and "b_Seek B = None \<or> b_Read B = None"
  shows "fsFile_Pread B x p off = (([], ENOSYS), x1)"
  using assms fsFile_isDirErrno_accessMode [OF assms(2)]
  by (auto simp: fsFile_Pread_def split: option.splits)

text \<open>
  C5. The claim, like the documentation of \<open>File.Pread\<close>, asks for \<open>EINVAL\<close> when
  the offset is negative. \<open>fsFile.Pread\<close> has no check of the offset: a negative offset
  reaches the backing handle, through \<open>ReadAt\<close> or, in the fallback, through \<open>Seek\<close>,
  and what comes back is the handle's error passed through \<open>UnwrapOSError\<close>. Evaluated
  on a readable regular 20-byte file with a one-byte buffer: over a handle with
  \<open>ReadAt\<close>, offset 10 reads the byte there, while offset \<open>-1\<close> is handed to
  \<open>ReadAt\<close> and the result is the handle's error, which carries no errno and comes out
  as \<open>EIO\<close>; over a handle with \<open>Seek\<close> and \<open>Read\<close> only, offset \<open>-1\<close> is handed
  to \<open>Seek\<close> with the same outcome. In neither case is the result \<open>EINVAL\<close>.
\<close>

theorem fsFile_Pread_negative_offset:
  "fst (fsFile_Pread memReaderAt file20 [0] 10) = ([10], 0)
   \<and> fst (fsFile_Pread memReaderAt file20 [0] (- 1)) = ([], EIO)
   \<and> nat_log (fsFile_file (snd (fsFile_Pread memReaderAt file20 [0] (- 1))))
       = [N_statFile, N_ReadAt 1 (- 1)]
   \<and> fst (fsFile_Pread memSeeker file20 [0] (- 1)) = ([], EIO)
   \<and> nat_log (fsFile_file (snd (fsFile_Pread memSeeker file20 [0] (- 1))))
       = [N_statFile, N_Seek 0 SeekCurrent, N_Seek (- 1) SeekStart, N_Seek 3 SeekStart]
   \<and> EIO \<noteq> EINVAL"
  by (simp add: file20_def digits20_def fsFile_defs mem_defs oflag_defs mode_defs
      FileMode_Type_def errno_defs SeekStart_def SeekCurrent_def Let_def)


section \<open>Properties of the Windows quirk layer\<close>

lemma reopen_calls_append [simp]: "reopen_calls (xs @ ys) = reopen_calls xs @ reopen_calls ys"
  by (simp add: reopen_calls_def)








text \<open>
  C10. When the file type is not cached and the native stat fails, \<open>getFileType\<close>
  returns file type zero and no error and leaves the cache empty (the handle is returned
  as it was). File type zero is not a directory, so on an open handle \<open>requireFile\<close>
  lets a file-only operation pass and answers a directory-only operation, such as
  \<open>Readdir\<close>, with a \<open>PathError\<close> carrying \<open>ENOTDIR\<close>; the errno of the failed
  stat appears nowhere in the results.
\<close>

theorem getFileType_stat_failure:
  fixes S :: "('w, 'h, 'e, 'fi, 'de) winsys" and w :: "'h windowsWrappedFile"
  assumes "wwf_fileType w = None"
    and "ws_statFile S (wwf_osFile w) (win_os W) = ((st, e), s')"
    and "e \<noteq> 0"
  defines "W' \<equiv> \<lparr>win_os = s', win_log = win_log W @ [W_statFile (wwf_osFile w)]\<rparr>"
  shows "windowsWrappedFile_getFileType S w W = ((0, None), w, W')
     \<and> \<not> FileMode_IsDir 0
     \<and> (\<not> wwf_closed w \<longrightarrow>
          windowsWrappedFile_requireFile S op False False w W = (None, w, W')
          \<and> windowsWrappedFile_requireFile S op False True w W
              = (Some (PathError op (wwf_path w) (Errno ENOTDIR)), w, W')
          \<and> windowsWrappedFile_Readdir S n w W
              = (([], Some (PathError ''Readdir'' (wwf_path w) (Errno ENOTDIR))), w, W'))"
proof -
  have g: "windowsWrappedFile_getFileType S w W = ((0, None), w, W')"
    using assms by (simp add: windowsWrappedFile_getFileType_def wcall_def)
  have z: "\<not> FileMode_IsDir 0" by (simp add: FileMode_IsDir_def)
  show ?thesis using g z
    by (simp add: windowsWrappedFile_requireFile_def windowsWrappedFile_Readdir_def)
qed

theorem getFileType_stat_failure_witness:
  "windowsWrappedFile_getFileType (countingWin EIO) dirHandle freshWin
     = ((0, None), dirHandle, \<lparr>win_os = 1, win_log = [W_statFile 0]\<rparr>)
   \<and> windowsWrappedFile_requireFile (countingWin EIO) ''Write'' False False dirHandle freshWin
     = (None, dirHandle, \<lparr>win_os = 1, win_log = [W_statFile 0]\<rparr>)
   \<and> windowsWrappedFile_Readdir (countingWin EIO) 0 dirHandle freshWin
     = (([], Some (PathError ''Readdir'' ''dir'' (Errno ENOTDIR))), dirHandle,
        \<lparr>win_os = 1, win_log = [W_statFile 0]\<rparr>)"
proof -
  have a1: "wwf_fileType dirHandle = None" by (simp add: dirHandle_def)
  have a2: "ws_statFile (countingWin EIO) (wwf_osFile dirHandle) (win_os freshWin)
              = ((\<lparr>Stat_Mode = ModeDir, Stat_Nlink = 1, Stat_Size = 0\<rparr>, EIO), 1)"
    by (simp add: win_fix_defs)
  have a3: "EIO \<noteq> 0" by (simp add: EIO_def)
  have c: "\<not> wwf_closed dirHandle" and p: "wwf_path dirHandle = ''dir''"
    and h: "wwf_osFile dirHandle = 0" and l: "win_log freshWin = []"
    by (simp_all add: win_fix_defs)
  show ?thesis
    using getFileType_stat_failure [OF a1 a2 a3, of "''Write''" 0] c p h l by simp
qed

section \<open>Close\<close>

lemma fsFile_Close_forwards:
  "b_Close B (nat_h (fsFile_file x)) = (err, h') \<Longrightarrow>
     fsFile_Close B x =
       (b_UnwrapOSError B err,
        x\<lparr>fsFile_file := \<lparr>nat_h = h', nat_log = nat_log (fsFile_file x) @ [N_Close]\<rparr>\<rparr>)"
  by (simp add: fsFile_Close_def native_def)

lemma windowsWrappedFile_Close_success:
  "\<not> wwf_closed w \<Longrightarrow> ws_Close S (wwf_osFile w) (win_os W) = (None, s') \<Longrightarrow>
     windowsWrappedFile_Close S w W =
       (None, w, \<lparr>win_os = s', win_log = win_log W @ [W_Close (wwf_osFile w)]\<rparr>)"
  by (simp add: windowsWrappedFile_Close_def wcall_def)

text \<open>
  C2. The claim asks that a close which succeeds leaves the file closed, so that a later
  close does not invoke the native close again. \<open>windowsWrappedFile.Close\<close> does not
  achieve this: it sets \<open>closed\<close> only when the native close reports an error, although
  the field is documented as true once close was called. Evaluated on an open handle
  whose native close succeeds: the first \<open>Close\<close> returns no error and leaves
  \<open>closed\<close> unset, and a second \<open>Close\<close> invokes the native close on the same
  handle a second time.
\<close>

theorem windowsWrappedFile_Close_twice:
  "\<not> wwf_closed dirHandle
   \<and> fst (windowsWrappedFile_Close (countingWin 0) dirHandle freshWin) = None
   \<and> \<not> wwf_closed (fst (snd (windowsWrappedFile_Close (countingWin 0) dirHandle freshWin)))
   \<and> win_log (snd (snd (windowsWrappedFile_Close (countingWin 0) dirHandle freshWin)))
       = [W_Close 0]
   \<and> win_log (snd (snd (windowsWrappedFile_Close (countingWin 0)
         (fst (snd (windowsWrappedFile_Close (countingWin 0) dirHandle freshWin)))
         (snd (snd (windowsWrappedFile_Close (countingWin 0) dirHandle freshWin))))))
       = [W_Close 0, W_Close 0]"
  by (simp add: wwf_defs win_fix_defs)


section \<open>Properties of the generic-namespace adapter\<close>

lemma join_snoc: "join (st @ [e]) = (if st = [] then e else join st @ CHR ''/'' # e)"
  by (induction st rule: join.induct) auto

lemma join_Nil_iff: "\<forall>e\<in>set st. e \<noteq> [] \<Longrightarrow> join st = [] \<longleftrightarrow> st = []"
  by (induction st rule: join.induct) auto

lemma elems_dot: "dot_elem (c # cs) \<Longrightarrow> elems (c # cs) = ''.'' # elems cs"
  by (cases cs) auto

lemma elems_dotdot: "dotdot_elem (c # cs) \<Longrightarrow> elems (c # cs) = ''..'' # elems (drop 1 cs)"
  by (cases cs; cases "tl cs") auto

lemma elems_plain:
  assumes "c \<noteq> CHR ''/''" and "\<not> dot_elem (c # cs)" and "\<not> dotdot_elem (c # cs)"
  shows "c # takeWhile (\<lambda>x. x \<noteq> CHR ''/'') cs \<noteq> ''.''"
    and "c # takeWhile (\<lambda>x. x \<noteq> CHR ''/'') cs \<noteq> ''..''"
  using assms by (cases cs; cases "tl cs"; auto split: if_splits)+

lemma backtrack_run:
  assumes "\<forall>c\<in>set e. c \<noteq> CHR ''/''" and "dd \<le> length q"
  shows "k < length e \<Longrightarrow> backtrack (q @ e) (length q + k) dd = backtrack (q @ e) (length q) dd"
proof (induction k)
  case 0
  show ?case by simp
next
  case (Suc k)
  have "(q @ e) ! (length q + Suc k) = e ! Suc k" by (simp add: nth_append)
  moreover have "e ! Suc k \<noteq> CHR ''/''" using assms(1) Suc.prems by (metis nth_mem)
  moreover have "length q + Suc k > dd" using assms(2) by simp
  ultimately have "backtrack (q @ e) (length q + Suc k) dd = backtrack (q @ e) (length q + k) dd"
    by (subst backtrack.simps) simp
  then show ?case using Suc by simp
qed

lemma backtrack_last:
  assumes "\<forall>c\<in>set e. c \<noteq> CHR ''/''" and "e \<noteq> []" and "dd \<le> length p"
    and "s = ''/'' \<or> s = [] \<and> dd = length p"
  shows "backtrack (p @ s @ e) (length (p @ s @ e) - 1) dd = length p"
proof -
  have l: "length (p @ s @ e) - 1 = length (p @ s) + (length e - 1)"
    using assms(2) by (cases e) auto
  have d: "dd \<le> length (p @ s)" using assms(3) by simp
  have r: "backtrack ((p @ s) @ e) (length (p @ s) + (length e - 1)) dd
             = backtrack ((p @ s) @ e) (length (p @ s)) dd"
    using backtrack_run [OF assms(1) d, of "length e - 1"] assms(2) by (cases e) auto
  have e0: "((p @ s) @ e) ! length (p @ s) \<noteq> CHR ''/''"
    using assms(1,2) by (cases e) (auto simp: nth_append)
  from assms(4) have "backtrack ((p @ s) @ e) (length (p @ s)) dd = length p"
  proof
    assume s: "s = ''/''"
    have "backtrack ((p @ s) @ e) (length (p @ s)) dd = backtrack ((p @ s) @ e) (length p) dd"
      using e0 assms(3) s by (subst backtrack.simps) simp
    also have "\<dots> = length p"
      using s by (subst backtrack.simps) (simp add: nth_append)
    finally show ?thesis .
  next
    assume "s = [] \<and> dd = length p"
    then show ?thesis by (subst backtrack.simps) simp
  qed
  then show ?thesis using l r by simp
qed

lemma length_join: "length (join xs) = sum_list (map length xs) + (length xs - 1)"
  by (induction xs rule: join.induct) auto

lemma takeWhile_snoc_not: "\<not> P x \<Longrightarrow> takeWhile P (xs @ [x]) = takeWhile P xs"
  by (induction xs) auto

lemma dropWhile_snoc_not: "\<not> P x \<Longrightarrow> dropWhile P (xs @ [x]) = dropWhile P xs @ [x]"
  by (induction xs) auto

lemma dropWhile_Nil_last:
  assumes "\<forall>e\<in>set (dropWhile P st). \<not> P e" and "st \<noteq> []" and "P (last st)"
  shows "dropWhile P st = []"
proof (rule ccontr)
  assume n: "dropWhile P st \<noteq> []"
  have "st = takeWhile P st @ dropWhile P st" by simp
  then have "last st = last (dropWhile P st)" using n by (metis last_appendR)
  then have "last st \<in> set (dropWhile P st)" using n by simp
  then show False using assms(1,3) by blast
qed

lemma length_join_takeWhile: "length (join (takeWhile P xs)) \<le> length (join xs)"
proof -
  have "xs = takeWhile P xs @ dropWhile P xs" by simp
  then have "sum_list (map length (takeWhile P xs)) \<le> sum_list (map length xs)"
    by (metis le_add1 map_append sum_list.append)
  moreover have "length (takeWhile P xs) \<le> length xs" by (rule length_takeWhile_le)
  ultimately show ?thesis by (simp add: length_join)
qed

lemma clean_invD:
  assumes "clean_inv rooted st out dotdot"
  shows "out = root_of rooted @ join st"
    and "dotdot = length (root_of rooted @ join (takeWhile (\<lambda>e. e = ''..'') st))"
    and "\<forall>e\<in>set st. e \<noteq> [] \<and> CHR ''/'' \<notin> set e"
    and "rooted \<longrightarrow> ''..'' \<notin> set st"
    and "\<forall>e\<in>set (dropWhile (\<lambda>e. e = ''..'') st). e \<noteq> ''..''"
  using assms unfolding clean_inv_def by blast+

lemma clean_invI:
  assumes "out = root_of rooted @ join st"
    and "dotdot = length (root_of rooted @ join (takeWhile (\<lambda>e. e = ''..'') st))"
    and "\<forall>e\<in>set st. e \<noteq> [] \<and> CHR ''/'' \<notin> set e"
    and "rooted \<longrightarrow> ''..'' \<notin> set st"
    and "\<forall>e\<in>set (dropWhile (\<lambda>e. e = ''..'') st). e \<noteq> ''..''"
  shows "clean_inv rooted st out dotdot"
  using assms unfolding clean_inv_def by blast

lemma inv_all_dotdot:
  assumes "clean_inv rooted st out dotdot" and "\<not> (st \<noteq> [] \<and> last st \<noteq> ''..'')"
  shows "takeWhile (\<lambda>e. e = ''..'') st = st"
proof (cases "st = []")
  case True
  then show ?thesis by simp
next
  case False
  then have l: "last st = ''..''" using assms(2) by blast
  have "dropWhile (\<lambda>e. e = ''..'') st = []"
    by (rule dropWhile_Nil_last [OF _ False]) (use clean_invD(5) [OF assms(1)] l in blast)+
  then show ?thesis by (metis append_Nil2 takeWhile_dropWhile_id)
qed

lemma inv_can_backtrack:
  assumes "clean_inv rooted st out dotdot"
  shows "dotdot < length out \<longleftrightarrow> st \<noteq> [] \<and> last st \<noteq> ''..''"
proof (cases "st \<noteq> [] \<and> last st \<noteq> ''..''")
  case False
  then have tw: "takeWhile (\<lambda>e. e = ''..'') st = st" using inv_all_dotdot [OF assms] by blast
  have "dotdot = length (root_of rooted @ join st)"
    using clean_invD(2) [OF assms] unfolding tw .
  then have "dotdot = length out" unfolding clean_invD(1) [OF assms] .
  then show ?thesis using False by simp
next
  case True
  then have st: "butlast st @ [last st] = st" by simp
  have t: "takeWhile (\<lambda>e. e = ''..'') st = takeWhile (\<lambda>e. e = ''..'') (butlast st)"
    using takeWhile_snoc_not [of "\<lambda>e. e = ''..''" "last st" "butlast st"] True st by simp
  have "last st \<in> set st" using True by simp
  then have ne: "last st \<noteq> []" using clean_invD(3) [OF assms] by blast
  have "join st = join (butlast st @ [last st])" using st by simp
  then have "length (join (butlast st)) < length (join st)"
    using ne by (simp add: join_snoc)
  moreover have "length (join (takeWhile (\<lambda>e. e = ''..'') (butlast st))) \<le> length (join (butlast st))"
    by (rule length_join_takeWhile)
  ultimately have "dotdot < length out"
    using clean_invD(1,2) [OF assms] t by simp
  then show ?thesis using True by simp
qed

lemma inv_pop:
  assumes inv: "clean_inv rooted st out dotdot" and ne: "st \<noteq> []" and nd: "last st \<noteq> ''..''"
  shows "clean_inv rooted (butlast st) (take (backtrack out (length out - 1) dotdot) out) dotdot"
proof -
  have st: "butlast st @ [last st] = st" using ne by simp
  have t: "takeWhile (\<lambda>e. e = ''..'') st = takeWhile (\<lambda>e. e = ''..'') (butlast st)"
    using takeWhile_snoc_not [of "\<lambda>e. e = ''..''" "last st" "butlast st"] nd st by simp
  have d: "dropWhile (\<lambda>e. e = ''..'') st = dropWhile (\<lambda>e. e = ''..'') (butlast st) @ [last st]"
    using dropWhile_snoc_not [of "\<lambda>e. e = ''..''" "last st" "butlast st"] nd st by simp
  define p where "p = root_of rooted @ join (butlast st)"
  define s where "s = (if butlast st = [] then [] else ''/'')"
  have "join st = join (butlast st @ [last st])" using st by simp
  then have out: "out = p @ s @ last st"
    using clean_invD(1) [OF inv] by (simp add: join_snoc p_def s_def)
  have m: "last st \<in> set st" using ne by simp
  have e1: "\<forall>c\<in>set (last st). c \<noteq> CHR ''/''" and e2: "last st \<noteq> []"
    using clean_invD(3) [OF inv] m by blast+
  have dd: "dotdot = length (root_of rooted @ join (takeWhile (\<lambda>e. e = ''..'') (butlast st)))"
    using clean_invD(2) [OF inv] t by simp
  have le: "dotdot \<le> length p"
    using length_join_takeWhile [of "\<lambda>e. e = ''..''" "butlast st"] by (simp add: dd p_def)
  have sc: "s = ''/'' \<or> s = [] \<and> dotdot = length p"
    by (cases "butlast st = []") (simp_all add: s_def dd p_def)
  have "backtrack out (length out - 1) dotdot = length p"
    unfolding out by (rule backtrack_last [OF e1 e2 le sc])
  then have o: "take (backtrack out (length out - 1) dotdot) out = p" by (simp add: out)
  have sub: "set (butlast st) \<subseteq> set st" by (metis st set_append Un_upper1)
  have sub2: "set (dropWhile (\<lambda>e. e = ''..'') (butlast st)) \<subseteq> set (dropWhile (\<lambda>e. e = ''..'') st)"
    unfolding d by auto
  show ?thesis
    unfolding o
  proof (rule clean_invI)
    show "p = root_of rooted @ join (butlast st)" by (rule p_def)
    show "dotdot = length (root_of rooted @ join (takeWhile (\<lambda>e. e = ''..'') (butlast st)))"
      by (rule dd)
    show "\<forall>e\<in>set (butlast st). e \<noteq> [] \<and> CHR ''/'' \<notin> set e"
      using clean_invD(3) [OF inv] sub by blast
    show "rooted \<longrightarrow> ''..'' \<notin> set (butlast st)"
      using clean_invD(4) [OF inv] sub by blast
    show "\<forall>e\<in>set (dropWhile (\<lambda>e. e = ''..'') (butlast st)). e \<noteq> ''..''"
      using clean_invD(5) [OF inv] sub2 by blast
  qed
qed

lemma inv_push_dotdot:
  assumes inv: "clean_inv False st out dotdot" and n: "\<not> (st \<noteq> [] \<and> last st \<noteq> ''..'')"
  shows "clean_inv False (st @ [''..'']) ((if length out > 0 then out @ ''/'' else out) @ ''..'')
           (length ((if length out > 0 then out @ ''/'' else out) @ ''..''))"
proof -
  have a: "takeWhile (\<lambda>e. e = ''..'') st = st" by (rule inv_all_dotdot [OF inv n])
  then have all: "\<forall>e\<in>set st. e = ''..''" by (metis set_takeWhileD)
  have t: "takeWhile (\<lambda>e. e = ''..'') (st @ [''..'']) = st @ [''..'']"
    using all by (simp add: takeWhile_append2)
  have d: "dropWhile (\<lambda>e. e = ''..'') (st @ [''..'']) = []"
    using all by simp
  have o: "out = join st" using clean_invD(1) [OF inv] by (simp add: root_of_def)
  have z: "length out > 0 \<longleftrightarrow> st \<noteq> []"
    using join_Nil_iff [of st] clean_invD(3) [OF inv] unfolding o by blast
  have j: "(if length out > 0 then out @ ''/'' else out) @ ''..'' = join (st @ [''..''])"
    unfolding z by (simp add: join_snoc o)
  show ?thesis
    unfolding j
  proof (rule clean_invI)
    show "join (st @ [''..'']) = root_of False @ join (st @ [''..''])" by (simp add: root_of_def)
    show "length (join (st @ [''..'']))
            = length (root_of False @ join (takeWhile (\<lambda>e. e = ''..'') (st @ [''..''])))"
      unfolding t by (simp add: root_of_def)
    show "\<forall>e\<in>set (st @ [''..'']). e \<noteq> [] \<and> CHR ''/'' \<notin> set e"
      using clean_invD(3) [OF inv] by simp
    show "False \<longrightarrow> ''..'' \<notin> set (st @ [''..''])" by simp
    show "\<forall>e\<in>set (dropWhile (\<lambda>e. e = ''..'') (st @ [''..''])). e \<noteq> ''..''"
      unfolding d by simp
  qed
qed

lemma inv_push:
  assumes inv: "clean_inv rooted st out dotdot"
    and e: "e \<noteq> []" "CHR ''/'' \<notin> set e" "e \<noteq> ''..''"
  shows "clean_inv rooted (st @ [e])
           ((if rooted \<and> length out \<noteq> 1 \<or> \<not> rooted \<and> length out \<noteq> 0 then out @ ''/'' else out) @ e)
           dotdot"
proof -
  have t: "takeWhile (\<lambda>e. e = ''..'') (st @ [e]) = takeWhile (\<lambda>e. e = ''..'') st"
    using takeWhile_snoc_not [of "\<lambda>e. e = ''..''" e st] e(3) by simp
  have d: "dropWhile (\<lambda>e. e = ''..'') (st @ [e]) = dropWhile (\<lambda>e. e = ''..'') st @ [e]"
    using dropWhile_snoc_not [of "\<lambda>e. e = ''..''" e st] e(3) by simp
  have o: "out = root_of rooted @ join st" by (rule clean_invD(1) [OF inv])
  have jn: "join st = [] \<longleftrightarrow> st = []"
    using join_Nil_iff [of st] clean_invD(3) [OF inv] by blast
  have z: "(rooted \<and> length out \<noteq> 1 \<or> \<not> rooted \<and> length out \<noteq> 0) \<longleftrightarrow> st \<noteq> []"
    unfolding o using jn by (cases rooted) (simp_all add: root_of_def)
  have j: "(if rooted \<and> length out \<noteq> 1 \<or> \<not> rooted \<and> length out \<noteq> 0 then out @ ''/'' else out) @ e
             = root_of rooted @ join (st @ [e])"
    unfolding z by (simp add: join_snoc o)
  show ?thesis
    unfolding j
  proof (rule clean_invI)
    show "root_of rooted @ join (st @ [e]) = root_of rooted @ join (st @ [e])" by simp
    show "dotdot = length (root_of rooted @ join (takeWhile (\<lambda>e. e = ''..'') (st @ [e])))"
      unfolding t by (rule clean_invD(2) [OF inv])
    have s0: "set (st @ [e]) = insert e (set st)" by simp
    show "\<forall>x\<in>set (st @ [e]). x \<noteq> [] \<and> CHR ''/'' \<notin> set x"
      unfolding s0 using clean_invD(3) [OF inv] e(1,2) by blast
    have s1: "set (st @ [e]) = insert e (set st)" by simp
    show "rooted \<longrightarrow> ''..'' \<notin> set (st @ [e])"
      unfolding s1 using clean_invD(4) [OF inv] e(3) by blast
    have s2: "set (dropWhile (\<lambda>e. e = ''..'') st @ [e])
                = insert e (set (dropWhile (\<lambda>e. e = ''..'') st))"
      by simp
    show "\<forall>x\<in>set (dropWhile (\<lambda>e. e = ''..'') (st @ [e])). x \<noteq> ''..''"
      unfolding d s2 using clean_invD(5) [OF inv] e(3) by blast
  qed
qed

lemma resolve_plain:
  "e \<noteq> ''.'' \<Longrightarrow> e \<noteq> ''..'' \<Longrightarrow> resolve rooted st (e # es) = resolve rooted (st @ [e]) es"
  by (subst resolve.simps) (simp only: if_False)

lemma resolve_dot: "resolve rooted st (''.'' # es) = resolve rooted st es"
  by simp

lemma resolve_dotdot:
  "resolve rooted st (''..'' # es) =
     (if st \<noteq> [] \<and> last st \<noteq> ''..'' then resolve rooted (butlast st) es
      else if rooted then resolve rooted st es
      else resolve rooted (st @ [''..'']) es)"
  by simp

lemma clean_step_refines:
  assumes inv: "clean_inv rooted st out dotdot"
    and step: "clean_step rooted (c # cs) out dotdot = (rest', out', dotdot')"
  shows "\<exists>st'. clean_inv rooted st' out' dotdot'
           \<and> resolve rooted st' (elems rest') = resolve rooted st (elems (c # cs))"
proof (cases "c = CHR ''/''")
  case True
  then have "clean_step rooted (c # cs) out dotdot = (cs, out, dotdot)"
    by (simp add: clean_step_def)
  then have "(rest', out', dotdot') = (cs, out, dotdot)" using step by simp
  then have r: "rest' = cs" "out' = out" "dotdot' = dotdot" by simp_all
  have "elems (c # cs) = elems cs" using True by simp
  then show ?thesis using inv unfolding r by metis
next
  case sep: False
  show ?thesis
  proof (cases "dot_elem (c # cs)")
    case True
    then have "clean_step rooted (c # cs) out dotdot = (cs, out, dotdot)"
      using sep by (simp add: clean_step_def)
    then have "(rest', out', dotdot') = (cs, out, dotdot)" using step by simp
    then have r: "rest' = cs" "out' = out" "dotdot' = dotdot" by simp_all
    have "elems (c # cs) = ''.'' # elems cs" by (rule elems_dot [OF True])
    then show ?thesis using inv resolve_dot unfolding r by metis
  next
    case dot: False
    show ?thesis
    proof (cases "dotdot_elem (c # cs)")
      case dd: True
      have el: "elems (c # cs) = ''..'' # elems (drop 1 cs)" by (rule elems_dotdot [OF dd])
      have cb: "dotdot < length out \<longleftrightarrow> st \<noteq> [] \<and> last st \<noteq> ''..''"
        by (rule inv_can_backtrack [OF inv])
      show ?thesis
      proof (cases "st \<noteq> [] \<and> last st \<noteq> ''..''")
        case pop: True
        then have lt: "dotdot < length out" using cb by blast
        have "clean_step rooted (c # cs) out dotdot
                = (drop 1 cs, take (backtrack out (length out - 1) dotdot) out, dotdot)"
          using sep dot dd lt by (simp add: clean_step_def)
        then have "(rest', out', dotdot')
                = (drop 1 cs, take (backtrack out (length out - 1) dotdot) out, dotdot)"
          using step by simp
        then have r: "rest' = drop 1 cs"
          "out' = take (backtrack out (length out - 1) dotdot) out" "dotdot' = dotdot"
          by simp_all
        have i: "clean_inv rooted (butlast st) (take (backtrack out (length out - 1) dotdot) out) dotdot"
          using inv_pop [OF inv] pop by blast
        have "resolve rooted st (elems (c # cs)) = resolve rooted (butlast st) (elems (drop 1 cs))"
          unfolding el resolve_dotdot by (rule if_P [OF pop])
        then show ?thesis using i unfolding r by metis
      next
        case nopop: False
        then have nb: "\<not> dotdot < length out" using cb by blast
        show ?thesis
        proof (cases rooted)
          case True
          have "clean_step rooted (c # cs) out dotdot = (drop 1 cs, out, dotdot)"
            using sep dot dd nb True by (simp add: clean_step_def)
          then have "(rest', out', dotdot') = (drop 1 cs, out, dotdot)" using step by simp
          then have r: "rest' = drop 1 cs" "out' = out" "dotdot' = dotdot" by simp_all
          have "resolve rooted st (elems (c # cs)) = resolve rooted st (elems (drop 1 cs))"
            unfolding el resolve_dotdot if_not_P [OF nopop] by (rule if_P [OF True])
          then show ?thesis using inv unfolding r by metis
        next
          case False
          have "clean_step rooted (c # cs) out dotdot
                  = (drop 1 cs, (if length out > 0 then out @ ''/'' else out) @ ''..'',
                     length ((if length out > 0 then out @ ''/'' else out) @ ''..''))"
            using sep dot dd nb False by (simp add: clean_step_def)
          then have "(rest', out', dotdot')
                  = (drop 1 cs, (if length out > 0 then out @ ''/'' else out) @ ''..'',
                     length ((if length out > 0 then out @ ''/'' else out) @ ''..''))"
            using step by simp
          then have r: "rest' = drop 1 cs"
            "out' = (if length out > 0 then out @ ''/'' else out) @ ''..''"
            "dotdot' = length ((if length out > 0 then out @ ''/'' else out) @ ''..'')"
            by simp_all
          have i: "clean_inv rooted (st @ [''..'']) ((if length out > 0 then out @ ''/'' else out) @ ''..'')
              (length ((if length out > 0 then out @ ''/'' else out) @ ''..''))"
          proof -
            have r0: "rooted = False" using False by simp
            show ?thesis unfolding r0 by (rule inv_push_dotdot [OF inv [unfolded r0] nopop])
          qed
          have "resolve rooted st (elems (c # cs)) = resolve rooted (st @ [''..'']) (elems (drop 1 cs))"
            unfolding el resolve_dotdot if_not_P [OF nopop] by (rule if_not_P [OF False])
          then show ?thesis using i unfolding r by metis
        qed
      qed
    next
      case plain: False
      define e where "e = c # takeWhile (\<lambda>x. x \<noteq> CHR ''/'') cs"
      have e1: "e \<noteq> ''.''" and e2: "e \<noteq> ''..''"
        unfolding e_def using elems_plain [OF sep dot plain] by blast+
      have e3: "e \<noteq> []" by (simp add: e_def)
      have e4: "CHR ''/'' \<notin> set e"
        unfolding e_def using sep by (auto dest: set_takeWhileD)
      have el: "elems (c # cs) = e # elems (dropWhile (\<lambda>x. x \<noteq> CHR ''/'') cs)"
        using sep by (simp add: e_def)
      have "clean_step rooted (c # cs) out dotdot
              = (dropWhile (\<lambda>x. x \<noteq> CHR ''/'') cs,
                 (if rooted \<and> length out \<noteq> 1 \<or> \<not> rooted \<and> length out \<noteq> 0
                  then out @ ''/'' else out) @ e, dotdot)"
        using sep dot plain by (simp add: clean_step_def e_def)
      then have "(rest', out', dotdot')
              = (dropWhile (\<lambda>x. x \<noteq> CHR ''/'') cs,
                 (if rooted \<and> length out \<noteq> 1 \<or> \<not> rooted \<and> length out \<noteq> 0
                  then out @ ''/'' else out) @ e, dotdot)"
        using step by simp
      then have r: "rest' = dropWhile (\<lambda>x. x \<noteq> CHR ''/'') cs"
        "out' = (if rooted \<and> length out \<noteq> 1 \<or> \<not> rooted \<and> length out \<noteq> 0
                 then out @ ''/'' else out) @ e"
        "dotdot' = dotdot"
        by simp_all
      have i: "clean_inv rooted (st @ [e])
           ((if rooted \<and> length out \<noteq> 1 \<or> \<not> rooted \<and> length out \<noteq> 0 then out @ ''/'' else out) @ e)
           dotdot"
        by (rule inv_push [OF inv e3 e4 e2])
      have "resolve rooted st (elems (c # cs))
              = resolve rooted (st @ [e]) (elems (dropWhile (\<lambda>x. x \<noteq> CHR ''/'') cs))"
        unfolding el by (rule resolve_plain [OF e1 e2])
      then show ?thesis using i unfolding r by metis
    qed
  qed
qed

lemma clean_loop_refines:
  "clean_inv rooted st out dotdot \<Longrightarrow>
     clean_loop rooted rest out dotdot = root_of rooted @ join (resolve rooted st (elems rest))"
proof (induction rooted rest out dotdot arbitrary: st rule: clean_loop.induct)
  case (1 rooted rest out dotdot)
  show ?case
  proof (cases rest)
    case Nil
    then show ?thesis
      using clean_invD(1) [OF "1.prems"] by (subst clean_loop.simps) simp
  next
    case (Cons c cs)
    obtain rest' out' dotdot' where step: "clean_step rooted rest out dotdot = (rest', out', dotdot')"
      by (metis prod.exhaust)
    from clean_step_refines [OF "1.prems" step [unfolded Cons]]
    obtain st' where inv': "clean_inv rooted st' out' dotdot'"
      and eq: "resolve rooted st' (elems rest') = resolve rooted st (elems rest)"
      unfolding Cons by blast
    have ne: "rest \<noteq> []" using Cons by simp
    have "clean_loop rooted rest' out' dotdot' = root_of rooted @ join (resolve rooted st' (elems rest'))"
      using "1.IH" [OF ne step [symmetric] refl inv'] .
    moreover have "clean_loop rooted rest out dotdot = clean_loop rooted rest' out' dotdot'"
      using ne step by (subst clean_loop.simps) simp
    ultimately show ?thesis using eq by simp
  qed
qed

lemma path_Clean_lexical: "path_Clean p = lexical_clean p"
proof (cases p)
  case Nil
  then show ?thesis by (simp add: path_Clean_def lexical_clean_def)
next
  case (Cons c cs)
  show ?thesis
  proof (cases "c = CHR ''/''")
    case True
    have i: "clean_inv True [] ''/'' 1"
      by (rule clean_invI) (simp_all add: root_of_def)
    have "clean_loop True cs ''/'' 1 = ''/'' @ join (resolve True [] (elems cs))"
      using clean_loop_refines [OF i, of cs] by (simp add: root_of_def)
    then show ?thesis using Cons True by (simp add: path_Clean_def lexical_clean_def)
  next
    case False
    have i: "clean_inv False [] [] 0"
      by (rule clean_invI) (simp_all add: root_of_def)
    have "clean_loop False p [] 0 = join (resolve False [] (elems p))"
      using clean_loop_refines [OF i, of p] by (simp add: root_of_def)
    then show ?thesis using Cons False by (simp add: path_Clean_def lexical_clean_def Let_def)
  qed
qed

lemma elems_elements: "\<forall>e\<in>set (elems p). e \<noteq> [] \<and> CHR ''/'' \<notin> set e"
  by (induction p rule: elems.induct) (auto dest: set_takeWhileD)

lemma resolve_elements:
  assumes "\<forall>e\<in>set es. e \<noteq> [] \<and> CHR ''/'' \<notin> set e"
    and "\<forall>e\<in>set st. e \<noteq> [] \<and> e \<noteq> ''.'' \<and> CHR ''/'' \<notin> set e"
  shows "\<forall>e\<in>set (resolve rooted st es). e \<noteq> [] \<and> e \<noteq> ''.'' \<and> CHR ''/'' \<notin> set e"
  using assms
proof (induction es arbitrary: st)
  case Nil
  then show ?case by simp
next
  case (Cons x es)
  have es: "\<forall>e\<in>set es. e \<noteq> [] \<and> CHR ''/'' \<notin> set e" using Cons.prems(1) by simp
  have x: "x \<noteq> [] \<and> CHR ''/'' \<notin> set x" using Cons.prems(1) by simp
  have b: "\<forall>e\<in>set (butlast st). e \<noteq> [] \<and> e \<noteq> ''.'' \<and> CHR ''/'' \<notin> set e"
    using Cons.prems(2) by (meson in_set_butlastD)
  have d: "\<forall>e\<in>set (st @ [''..'']). e \<noteq> [] \<and> e \<noteq> ''.'' \<and> CHR ''/'' \<notin> set e"
    using Cons.prems(2) by auto
  show ?case
  proof (cases "x = ''.''")
    case True
    then show ?thesis using Cons.IH [OF es Cons.prems(2)] by (simp only: resolve_dot)
  next
    case nd: False
    show ?thesis
    proof (cases "x = ''..''")
      case True
      show ?thesis
        unfolding True resolve_dotdot
        using Cons.IH [OF es Cons.prems(2)] Cons.IH [OF es b] Cons.IH [OF es d]
        by (simp only: split: if_split) blast
    next
      case False
      have s: "set (st @ [x]) = insert x (set st)" by simp
      have "\<forall>e\<in>set (st @ [x]). e \<noteq> [] \<and> e \<noteq> ''.'' \<and> CHR ''/'' \<notin> set e"
        unfolding s using Cons.prems(2) x nd by blast
      then show ?thesis
        using Cons.IH [OF es] unfolding resolve_plain [OF nd False] by blast
    qed
  qed
qed

lemma cleanPath_example: "cleanPath ''/sub/./file.txt'' = ''sub/file.txt''"
  by code_simp

lemma cleanPath_examples:
  "cleanPath ''a/./b//c'' = ''a/b/c''" "cleanPath ''//a'' = ''/a''" "cleanPath ''/'' = ''.''"
  "cleanPath ''/a/b/../c'' = ''a/c''" "cleanPath ''/../a/./..//b/'' = ''../b''"
  by code_simp+

text \<open>
  C9. For every input path, \<open>adapter.OpenFile\<close> calls the namespace's \<open>Open\<close> exactly
  once, with \<open>cleanPath\<close> of the input, and the file it returns carries that same path.
  \<open>cleanPath\<close> passes an empty path through unchanged; otherwise it strips one leading
  \<open>/\<close>, if there is one, and the result of \<open>path.Clean\<close> on the rest is its lexical
  cleaning: the elements that remain after resolution, none of them empty, none of them
  \<open>.\<close> and none containing a separator, joined by single separators behind the root
  (or \<open>.\<close> when nothing remains). For the input \<open>/sub/./file.txt\<close> the namespace
  receives \<open>sub/file.txt\<close>.
\<close>

theorem adapter_OpenFile_cleans_path:
  fixes a :: "('s, 'h, 'e) adapter"
  shows "ns_log (snd (adapter_OpenFile U a path flag perm W)) = ns_log W @ [cleanPath path]
     \<and> fsFile_path (fst (fst (adapter_OpenFile U a path flag perm W))) = cleanPath path
     \<and> cleanPath [] = []
     \<and> cleanPath (c # rest) = lexical_clean (if c = CHR ''/'' then rest else c # rest)
     \<and> (\<forall>e\<in>set (resolve rooted [] (elems p)). e \<noteq> [] \<and> e \<noteq> ''.'' \<and> CHR ''/'' \<notin> set e)
     \<and> cleanPath ''/sub/./file.txt'' = ''sub/file.txt''"
proof -
  have 1: "ns_log (snd (adapter_OpenFile U a path flag perm W)) = ns_log W @ [cleanPath path]"
    by (simp add: adapter_OpenFile_def FS_Open_def split: prod.splits)
  have 2: "fsFile_path (fst (fst (adapter_OpenFile U a path flag perm W))) = cleanPath path"
    by (simp add: adapter_OpenFile_def FS_Open_def NewFsFile_def split: prod.splits)
  have 3: "cleanPath [] = []" by (simp add: cleanPath_def)
  have 4: "cleanPath (c # rest) = lexical_clean (if c = CHR ''/'' then rest else c # rest)"
    by (simp add: cleanPath_def path_Clean_lexical)
  have 5: "\<forall>e\<in>set (resolve rooted [] (elems p)). e \<noteq> [] \<and> e \<noteq> ''.'' \<and> CHR ''/'' \<notin> set e"
    by (rule resolve_elements [OF elems_elements]) simp
  show ?thesis using 1 2 3 4 5 cleanPath_example by blast
qed

theorem adapter_OpenFile_cleans_path_witness:
  "ns_log (snd (adapter_OpenFile mem_UnwrapOSError countingFS ''/sub/./file.txt'' 0 0
                  \<lparr>ns_st = 0, ns_log = []\<rparr>)) = [''sub/file.txt'']
   \<and> ns_log (snd (adapter_OpenFile mem_UnwrapOSError countingFS [] 0 0
                  \<lparr>ns_st = 0, ns_log = []\<rparr>)) = [[]]
   \<and> ns_log (snd (adapter_OpenFile mem_UnwrapOSError countingFS ''a/./b//c'' 0 0
                  \<lparr>ns_st = 0, ns_log = []\<rparr>)) = [''a/b/c'']
   \<and> ns_log (snd (adapter_OpenFile mem_UnwrapOSError countingFS ''//a'' 0 0
                  \<lparr>ns_st = 0, ns_log = []\<rparr>)) = [''/a'']
   \<and> ns_log (snd (adapter_OpenFile mem_UnwrapOSError countingFS ''/a/b/../c'' 0 0
                  \<lparr>ns_st = 0, ns_log = []\<rparr>)) = [''a/c'']
   \<and> lexical_clean ''sub/./file.txt'' = ''sub/file.txt''"
proof -
  have e: "cleanPath ''/sub/./file.txt'' = lexical_clean ''sub/./file.txt''"
    using adapter_OpenFile_cleans_path [of mem_UnwrapOSError countingFS "''/sub/./file.txt''" 0 0
        "\<lparr>ns_st = 0, ns_log = []\<rparr>" "CHR ''/''" "''sub/./file.txt''" False "[]"]
    by simp
  have l: "lexical_clean ''sub/./file.txt'' = ''sub/file.txt''"
    by (rule trans [OF e [symmetric] cleanPath_example])
  show ?thesis
    using adapter_OpenFile_cleans_path [of mem_UnwrapOSError countingFS "''/sub/./file.txt''" 0 0
        "\<lparr>ns_st = 0, ns_log = []\<rparr>" "CHR ''/''" "[]" False "[]"]
      adapter_OpenFile_cleans_path [of mem_UnwrapOSError countingFS "[]" 0 0
        "\<lparr>ns_st = 0, ns_log = []\<rparr>" "CHR ''/''" "[]" False "[]"]
      adapter_OpenFile_cleans_path [of mem_UnwrapOSError countingFS "''a/./b//c''" 0 0
        "\<lparr>ns_st = 0, ns_log = []\<rparr>" "CHR ''/''" "[]" False "[]"]
      adapter_OpenFile_cleans_path [of mem_UnwrapOSError countingFS "''//a''" 0 0
        "\<lparr>ns_st = 0, ns_log = []\<rparr>" "CHR ''/''" "[]" False "[]"]
      adapter_OpenFile_cleans_path [of mem_UnwrapOSError countingFS "''/a/b/../c''" 0 0
        "\<lparr>ns_st = 0, ns_log = []\<rparr>" "CHR ''/''" "[]" False "[]"]
      cleanPath_examples l
    by simp
qed

end
